theory Spec2Isabelle
  imports Complex_Main "HOL-Library.Multiset" "HOL-Library.Char_ord"
    "HOL-Library.List_Lexorder" "HOL-Library.Product_Lexorder"
begin

section \<open>Values\<close>

text \<open>
  The server (\<^verbatim>\<open>src/space/server.js\<close>) is an Express application over a SQLite file
  (\<^verbatim>\<open>src/space/db.js\<close>). A handler reads the parsed JSON body of a request, runs
  prepared statements and answers with \<^verbatim>\<open>res.json\<close>. The embedding keeps three
  kinds of values apart: JavaScript values as \<^verbatim>\<open>JSON.parse\<close> builds them
  (\<open>json\<close>), JavaScript numbers (\<open>jsnum\<close>) and the values SQLite stores (\<open>sqlval\<close>).

  A string is the list of the bytes of its UTF-8 encoding, which is how SQLite keeps
  text and how it compares it; a JavaScript string with an unpaired surrogate has no
  such encoding and is outside the model.

  A finite number is the rational it denotes, but for the negative zero, which is a
  number of its own (\<open>NegZero\<close>): it is falsy, compares as zero and is stored as
  zero. What depends on the floating-point format is taken from the environment
  \<open>env\<close>: printing a number (\<open>num_to_string\<close>, the language's Number-to-String),
  reading one (\<open>string_to_num\<close>, the language's String-to-Number, which also gives a
  JSON number token its value), SQLite's conversion of text stored in a column of
  INTEGER affinity (\<open>integer_affinity\<close>) and of a number compared with a TEXT column
  (\<open>text_affinity\<close>). What the language fixes about printing and reading is not
  built into the environment: where a proof needs it, it is asked of the numbers at
  hand (\<open>reads_back\<close> below). The environment also carries the statement's
  \<^verbatim>\<open>datetime('now')\<close> (\<open>now\<close>) and the password check of the bcrypt library on two
  strings (\<open>compareSync\<close>; \<open>None\<close> when it throws, as it does on a stored hash that is
  not well formed).

  An object is the list of its own properties in the order JavaScript enumerates them:
  array-index keys first, ascending, then the other keys in insertion order
  (\<open>ordered_json\<close> below; two different keys never denote the same index).
\<close>

datatype jsnum = NaN | NegInf | NegZero | Fin rat | PosInf

datatype json =
    JNull
  | JBool bool
  | JNum jsnum
  | JStr string
  | JArr "json list"
  | JObj "(string \<times> json) list"

datatype sqlval = SqlNull | SqlNegInf | SqlNum rat | SqlPosInf | SqlText string

record env =
  now :: string
  num_to_string :: "jsnum \<Rightarrow> string"
  string_to_num :: "string \<Rightarrow> jsnum"
  compareSync :: "string \<Rightarrow> string \<Rightarrow> bool option"
  integer_affinity :: "string \<Rightarrow> sqlval"
  text_affinity :: "sqlval \<Rightarrow> string"

datatype js_error = TypeError | RangeError | SyntaxError | SqliteError | Error

text \<open>
  A handler either answers through \<^verbatim>\<open>res.status(n).json(v)\<close> (\<open>Json n v\<close>, status 200
  when none is set) or throws; Express turns an uncaught exception into an error
  response (\<open>Uncaught\<close>). A property whose value is \<^verbatim>\<open>undefined\<close> is left out of
  the object (\<open>js_object\<close>), as the serialisation of the response does.
\<close>

datatype reply = Json nat json | Uncaught js_error

section \<open>JSON.stringify and JSON.parse\<close>

text \<open>
  \<open>stringify\<close> is \<^verbatim>\<open>JSON.stringify\<close> with one argument: no indentation, members
  in property order, control characters, the quote and the backslash escaped, a number
  that is not finite written \<^verbatim>\<open>null\<close>.
\<close>

definition hex_digit :: "nat \<Rightarrow> char" where
  "hex_digit d = (''0123456789abcdef'') ! d"

fun quote_chars :: "string \<Rightarrow> string" where
  "quote_chars [] = []"
| "quote_chars (c # cs) =
     (if c = CHR 0x22 then [CHR 0x5C, CHR 0x22]
      else if c = CHR 0x5C then [CHR 0x5C, CHR 0x5C]
      else if c = CHR 0x08 then [CHR 0x5C, CHR ''b'']
      else if c = CHR 0x09 then [CHR 0x5C, CHR ''t'']
      else if c = CHR 0x0A then [CHR 0x5C, CHR ''n'']
      else if c = CHR 0x0C then [CHR 0x5C, CHR ''f'']
      else if c = CHR 0x0D then [CHR 0x5C, CHR ''r'']
      else if (of_char c :: nat) < 32
        then [CHR 0x5C, CHR ''u'', CHR ''0'', CHR ''0'', hex_digit (of_char c div 16), hex_digit (of_char c mod 16)]
      else [c]) @ quote_chars cs"

definition quote :: "string \<Rightarrow> string" where
  "quote s = CHR 0x22 # quote_chars s @ [CHR 0x22]"

definition is_finite :: "jsnum \<Rightarrow> bool" where
  "is_finite n = (case n of Fin _ \<Rightarrow> True | NegZero \<Rightarrow> True | _ \<Rightarrow> False)"

fun stringify :: "env \<Rightarrow> json \<Rightarrow> string"
  and stringify_elems :: "env \<Rightarrow> json list \<Rightarrow> string"
  and stringify_members :: "env \<Rightarrow> (string \<times> json) list \<Rightarrow> string" where
  "stringify e JNull = ''null''"
| "stringify e (JBool b) = (if b then ''true'' else ''false'')"
| "stringify e (JNum n) = (if is_finite n then num_to_string e n else ''null'')"
| "stringify e (JStr s) = quote s"
| "stringify e (JArr vs) = ''['' @ stringify_elems e vs @ '']''"
| "stringify e (JObj kvs) = ''{'' @ stringify_members e kvs @ ''}''"
| "stringify_elems e [] = []"
| "stringify_elems e [v] = stringify e v"
| "stringify_elems e (v # w # vs) = stringify e v @ '','' @ stringify_elems e (w # vs)"
| "stringify_members e [] = []"
| "stringify_members e [(k, v)] = quote k @ '':'' @ stringify e v"
| "stringify_members e ((k, v) # m # kvs) =
     quote k @ '':'' @ stringify e v @ '','' @ stringify_members e (m # kvs)"

text \<open>
  \<open>json_parse\<close> is \<^verbatim>\<open>JSON.parse\<close>: \<open>None\<close> stands for the SyntaxError it throws. The
  recursion over nested values is driven by fuel, one unit for a value and one for each
  further element or member, and starts with the length of the text
  (\<open>json_parse_stringify\<close> shows that this is enough for the texts \<open>stringify\<close>
  writes). A string
  token is read in two passes: \<open>scan_string\<close> splits it into raw bytes and
  \<^verbatim>\<open>\uXXXX\<close> escapes, \<open>units_to_utf8\<close> joins surrogate pairs and encodes the escaped code
  points. Properties are added to an object as the language does it (\<open>obj_put\<close>): a
  repeated key keeps its place and takes the later value, a new array-index key goes
  among the index keys in ascending order, any other new key goes last.
\<close>

definition is_ws :: "char \<Rightarrow> bool" where
  "is_ws c = (c = CHR 0x20 \<or> c = CHR 0x09 \<or> c = CHR 0x0A \<or> c = CHR 0x0D)"

definition skip_ws :: "string \<Rightarrow> string" where
  "skip_ws s = dropWhile is_ws s"

definition is_digit :: "char \<Rightarrow> bool" where
  "is_digit c = (48 \<le> (of_char c :: nat) \<and> (of_char c :: nat) \<le> 57)"

definition hex_val :: "char \<Rightarrow> nat option" where
  "hex_val c = (let n = (of_char c :: nat) in
     if 48 \<le> n \<and> n \<le> 57 then Some (n - 48)
     else if 97 \<le> n \<and> n \<le> 102 then Some (n - 87)
     else if 65 \<le> n \<and> n \<le> 70 then Some (n - 55)
     else None)"

definition hex4 :: "char \<Rightarrow> char \<Rightarrow> char \<Rightarrow> char \<Rightarrow> nat option" where
  "hex4 a b c d =
     (case (hex_val a, hex_val b, hex_val c, hex_val d) of
        (Some x, Some y, Some z, Some w) \<Rightarrow> Some (((x * 16 + y) * 16 + z) * 16 + w)
      | _ \<Rightarrow> None)"

definition simple_escape :: "char \<Rightarrow> char option" where
  "simple_escape x =
     (if x = CHR 0x22 then Some (CHR 0x22)
      else if x = CHR 0x5C then Some (CHR 0x5C)
      else if x = CHR ''/'' then Some (CHR ''/'')
      else if x = CHR ''b'' then Some (CHR 0x08)
      else if x = CHR ''f'' then Some (CHR 0x0C)
      else if x = CHR ''n'' then Some (CHR 0x0A)
      else if x = CHR ''r'' then Some (CHR 0x0D)
      else if x = CHR ''t'' then Some (CHR 0x09)
      else None)"

datatype junit = Raw char | Esc nat

definition cons_unit :: "junit \<Rightarrow> (junit list \<times> string) option \<Rightarrow> (junit list \<times> string) option" where
  "cons_unit u r = (case r of None \<Rightarrow> None | Some (us, rest) \<Rightarrow> Some (u # us, rest))"

fun scan_string :: "string \<Rightarrow> (junit list \<times> string) option" where
  "scan_string [] = None"
| "scan_string (c # cs) =
     (if c = CHR 0x22 then Some ([], cs)
      else if (of_char c :: nat) < 32 then None
      else if c = CHR 0x5C then
        (case cs of
           [] \<Rightarrow> None
         | x # r \<Rightarrow>
             if x = CHR ''u'' then
               (case r of
                  h1 # h2 # h3 # h4 # r' \<Rightarrow>
                    (case hex4 h1 h2 h3 h4 of
                       None \<Rightarrow> None
                     | Some n \<Rightarrow> cons_unit (Esc n) (scan_string r'))
                | _ \<Rightarrow> None)
             else (case simple_escape x of
                     None \<Rightarrow> None
                   | Some ch \<Rightarrow> cons_unit (Raw ch) (scan_string r)))
      else cons_unit (Raw c) (scan_string cs))"

definition utf8_encode :: "nat \<Rightarrow> string" where
  "utf8_encode n =
     (if n < 0x80 then [char_of n]
      else if n < 0x800 then [char_of (0xC0 + n div 64), char_of (0x80 + n mod 64)]
      else if n < 0x10000 then
        [char_of (0xE0 + n div 4096), char_of (0x80 + n div 64 mod 64), char_of (0x80 + n mod 64)]
      else
        [char_of (0xF0 + n div 262144), char_of (0x80 + n div 4096 mod 64),
         char_of (0x80 + n div 64 mod 64), char_of (0x80 + n mod 64)])"

definition is_high :: "nat \<Rightarrow> bool" where
  "is_high n = (0xD800 \<le> n \<and> n \<le> 0xDBFF)"

definition is_low :: "nat \<Rightarrow> bool" where
  "is_low n = (0xDC00 \<le> n \<and> n \<le> 0xDFFF)"

fun units_to_utf8 :: "junit list \<Rightarrow> string" where
  "units_to_utf8 [] = []"
| "units_to_utf8 (Raw c # us) = c # units_to_utf8 us"
| "units_to_utf8 (Esc h # Esc l # us) =
     (if is_high h \<and> is_low l
      then utf8_encode (0x10000 + (h - 0xD800) * 0x400 + (l - 0xDC00)) @ units_to_utf8 us
      else utf8_encode (if is_high h \<or> is_low h then 0xFFFD else h) @ units_to_utf8 (Esc l # us))"
| "units_to_utf8 (Esc u # us) =
     utf8_encode (if is_high u \<or> is_low u then 0xFFFD else u) @ units_to_utf8 us"

definition parse_string :: "string \<Rightarrow> (string \<times> string) option" where
  "parse_string s = (case scan_string s of None \<Rightarrow> None | Some (us, rest) \<Rightarrow> Some (units_to_utf8 us, rest))"

definition scan_int :: "string \<Rightarrow> (string \<times> string) option" where
  "scan_int s =
     (case s of
        [] \<Rightarrow> None
      | c # cs \<Rightarrow>
          if c = CHR ''0'' then Some ([c], cs)
          else if is_digit c then Some (c # takeWhile is_digit cs, dropWhile is_digit cs)
          else None)"

definition scan_frac :: "string \<Rightarrow> (string \<times> string) option" where
  "scan_frac s =
     (case s of
        c # cs \<Rightarrow>
          if c = CHR ''.'' then
            (if takeWhile is_digit cs = [] then None
             else Some (c # takeWhile is_digit cs, dropWhile is_digit cs))
          else Some ([], s)
      | [] \<Rightarrow> Some ([], s))"

definition scan_sign :: "string \<Rightarrow> string \<times> string" where
  "scan_sign s =
     (case s of
        c # cs \<Rightarrow> if c = CHR ''+'' \<or> c = CHR ''-'' then ([c], cs) else ([], s)
      | [] \<Rightarrow> ([], s))"

definition scan_exp :: "string \<Rightarrow> (string \<times> string) option" where
  "scan_exp s =
     (case s of
        c # cs \<Rightarrow>
          if c = CHR ''e'' \<or> c = CHR ''E'' then
            (let (sg, r) = scan_sign cs in
             if takeWhile is_digit r = [] then None
             else Some (c # sg @ takeWhile is_digit r, dropWhile is_digit r))
          else Some ([], s)
      | [] \<Rightarrow> Some ([], s))"

definition scan_number :: "string \<Rightarrow> (string \<times> string) option" where
  "scan_number s =
     (let (sg, r0) = (case s of c # cs \<Rightarrow> if c = CHR ''-'' then ([c], cs) else ([], s) | [] \<Rightarrow> ([], s)) in
      case scan_int r0 of
        None \<Rightarrow> None
      | Some (ip, r1) \<Rightarrow>
          (case scan_frac r1 of
             None \<Rightarrow> None
           | Some (fp, r2) \<Rightarrow>
               (case scan_exp r2 of
                  None \<Rightarrow> None
                | Some (ep, r3) \<Rightarrow> Some (sg @ ip @ fp @ ep, r3))))"

definition dec_val :: "string \<Rightarrow> int" where
  "dec_val s = foldl (\<lambda>n c. 10 * n + ((of_char c :: int) - 48)) 0 s"

definition array_index :: "string \<Rightarrow> int option" where
  "array_index k =
     (if k \<noteq> [] \<and> list_all is_digit k \<and> (k = ''0'' \<or> hd k \<noteq> CHR ''0'')
         \<and> length k \<le> 10 \<and> dec_val k \<le> 4294967294
      then Some (dec_val k) else None)"

fun insert_index :: "int \<Rightarrow> string \<Rightarrow> json \<Rightarrow> (string \<times> json) list \<Rightarrow> (string \<times> json) list" where
  "insert_index n k v [] = [(k, v)]"
| "insert_index n k v ((k', v') # kvs) =
     (case array_index k' of
        Some m \<Rightarrow> if m \<le> n then (k', v') # insert_index n k v kvs else (k, v) # (k', v') # kvs
      | None \<Rightarrow> (k, v) # (k', v') # kvs)"

definition obj_put :: "(string \<times> json) list \<Rightarrow> string \<times> json \<Rightarrow> (string \<times> json) list" where
  "obj_put kvs kv =
     (if map_of kvs (fst kv) \<noteq> None
      then map (\<lambda>p. if fst p = fst kv then kv else p) kvs
      else case array_index (fst kv) of
             None \<Rightarrow> kvs @ [kv]
           | Some n \<Rightarrow> insert_index n (fst kv) (snd kv) kvs)"

definition starts :: "string \<Rightarrow> string \<Rightarrow> bool" where
  "starts p s = (take (length p) s = p)"

fun parse_value :: "env \<Rightarrow> nat \<Rightarrow> string \<Rightarrow> (json \<times> string) option"
  and parse_elements :: "env \<Rightarrow> nat \<Rightarrow> string \<Rightarrow> (json list \<times> string) option"
  and parse_members :: "env \<Rightarrow> nat \<Rightarrow> string \<Rightarrow> ((string \<times> json) list \<times> string) option" where
  "parse_value e 0 s = None"
| "parse_value e (Suc n) s =
     (case skip_ws s of
        [] \<Rightarrow> None
      | c # cs \<Rightarrow>
          if c = CHR ''{'' then
            (case skip_ws cs of
               [] \<Rightarrow> None
             | d # ds \<Rightarrow>
                 if d = CHR ''}'' then Some (JObj [], ds)
                 else (case parse_members e n cs of
                         None \<Rightarrow> None
                       | Some (kvs, r) \<Rightarrow> Some (JObj (foldl obj_put [] kvs), r)))
          else if c = CHR ''['' then
            (case skip_ws cs of
               [] \<Rightarrow> None
             | d # ds \<Rightarrow>
                 if d = CHR '']'' then Some (JArr [], ds)
                 else (case parse_elements e n cs of
                         None \<Rightarrow> None
                       | Some (vs, r) \<Rightarrow> Some (JArr vs, r)))
          else if c = CHR 0x22 then
            (case parse_string cs of None \<Rightarrow> None | Some (str, r) \<Rightarrow> Some (JStr str, r))
          else if starts ''true'' (c # cs) then Some (JBool True, drop 4 (c # cs))
          else if starts ''false'' (c # cs) then Some (JBool False, drop 5 (c # cs))
          else if starts ''null'' (c # cs) then Some (JNull, drop 4 (c # cs))
          else (case scan_number (c # cs) of
                  None \<Rightarrow> None
                | Some (tok, r) \<Rightarrow> Some (JNum (string_to_num e tok), r)))"
| "parse_elements e 0 s = None"
| "parse_elements e (Suc n) s =
     (case parse_value e n s of
        None \<Rightarrow> None
      | Some (v, r) \<Rightarrow>
          (case skip_ws r of
             [] \<Rightarrow> None
           | c # cs \<Rightarrow>
               if c = CHR '','' then
                 (case parse_elements e n cs of
                    None \<Rightarrow> None
                  | Some (vs, r') \<Rightarrow> Some (v # vs, r'))
               else if c = CHR '']'' then Some ([v], cs)
               else None))"
| "parse_members e 0 s = None"
| "parse_members e (Suc n) s =
     (case skip_ws s of
        [] \<Rightarrow> None
      | q # qs \<Rightarrow>
          if q \<noteq> CHR 0x22 then None
          else (case parse_string qs of
                  None \<Rightarrow> None
                | Some (k, r0) \<Rightarrow>
                    (case skip_ws r0 of
                       [] \<Rightarrow> None
                     | col # r1 \<Rightarrow>
                         if col \<noteq> CHR '':'' then None
                         else (case parse_value e n r1 of
                                 None \<Rightarrow> None
                               | Some (v, r2) \<Rightarrow>
                                   (case skip_ws r2 of
                                      [] \<Rightarrow> None
                                    | c # cs \<Rightarrow>
                                        if c = CHR '','' then
                                          (case parse_members e n cs of
                                             None \<Rightarrow> None
                                           | Some (kvs, r3) \<Rightarrow> Some ((k, v) # kvs, r3))
                                        else if c = CHR ''}'' then Some ([(k, v)], cs)
                                        else None)))))"

definition json_parse :: "env \<Rightarrow> string \<Rightarrow> json option" where
  "json_parse e s =
     (case parse_value e (length s) s of
        None \<Rightarrow> None
      | Some (v, r) \<Rightarrow> if skip_ws r = [] then Some v else None)"

text \<open>
  \<open>ordered_json\<close> holds of the values whose objects list distinct keys in enumeration
  order (\<open>key_order\<close>): these are the values of the language, and every value
  \<open>json_parse\<close> returns is one (\<open>json_parse_ordered\<close>). \<open>numbers_of\<close> lists the
  numbers that occur in a value. \<open>number_token\<close> holds of the texts that are one JSON
  number, and \<open>reads_back\<close> of the numbers that the environment prints as a JSON number
  which it reads as the same number again; the language guarantees this of every
  finite number but the negative zero (\<open>plain_number\<close>): the text that
  Number-to-String gives is a decimal literal whose value rounds to the number it was
  printed from, and the negative zero is printed as \<^verbatim>\<open>0\<close>. \<open>printable_json\<close> holds
  of the values the round trip is proved for: the ordered values whose numbers are
  finite and read back.
  \<open>delimited\<close> holds of the texts that can follow a value inside a JSON text.
  \<open>need\<close> is the fuel a value's text takes, and \<open>escape_units\<close> the units
  \<open>scan_string\<close> reads back from a quoted string.
\<close>

fun key_order :: "string list \<Rightarrow> bool" where
  "key_order [] = True"
| "key_order [k] = True"
| "key_order (k # k' # ks) =
     ((case array_index k of
         Some a \<Rightarrow> (case array_index k' of Some b \<Rightarrow> a \<le> b | None \<Rightarrow> True)
       | None \<Rightarrow> array_index k' = None) \<and> key_order (k' # ks))"

fun ordered_json :: "json \<Rightarrow> bool"
  and ordered_elems :: "json list \<Rightarrow> bool"
  and ordered_members :: "(string \<times> json) list \<Rightarrow> bool" where
  "ordered_json JNull = True"
| "ordered_json (JBool b) = True"
| "ordered_json (JNum n) = True"
| "ordered_json (JStr s) = True"
| "ordered_json (JArr vs) = ordered_elems vs"
| "ordered_json (JObj kvs) =
     (distinct (map fst kvs) \<and> key_order (map fst kvs) \<and> ordered_members kvs)"
| "ordered_elems [] = True"
| "ordered_elems (v # vs) = (ordered_json v \<and> ordered_elems vs)"
| "ordered_members [] = True"
| "ordered_members ((k, v) # kvs) = (ordered_json v \<and> ordered_members kvs)"

fun numbers_of :: "json \<Rightarrow> jsnum list"
  and numbers_elems :: "json list \<Rightarrow> jsnum list"
  and numbers_members :: "(string \<times> json) list \<Rightarrow> jsnum list" where
  "numbers_of JNull = []"
| "numbers_of (JBool b) = []"
| "numbers_of (JNum n) = [n]"
| "numbers_of (JStr s) = []"
| "numbers_of (JArr vs) = numbers_elems vs"
| "numbers_of (JObj kvs) = numbers_members kvs"
| "numbers_elems [] = []"
| "numbers_elems (v # vs) = numbers_of v @ numbers_elems vs"
| "numbers_members [] = []"
| "numbers_members ((k, v) # kvs) = numbers_of v @ numbers_members kvs"

definition number_token :: "string \<Rightarrow> bool" where
  "number_token s = (scan_number s = Some (s, []))"

definition reads_back :: "env \<Rightarrow> jsnum \<Rightarrow> bool" where
  "reads_back e n =
     (number_token (num_to_string e n) \<and> string_to_num e (num_to_string e n) = n)"

definition plain_number :: "jsnum \<Rightarrow> bool" where
  "plain_number n = (is_finite n \<and> n \<noteq> NegZero)"

fun printable_json :: "env \<Rightarrow> json \<Rightarrow> bool"
  and printable_elems :: "env \<Rightarrow> json list \<Rightarrow> bool"
  and printable_members :: "env \<Rightarrow> (string \<times> json) list \<Rightarrow> bool" where
  "printable_json e JNull = True"
| "printable_json e (JBool b) = True"
| "printable_json e (JNum n) = (is_finite n \<and> reads_back e n)"
| "printable_json e (JStr s) = True"
| "printable_json e (JArr vs) = printable_elems e vs"
| "printable_json e (JObj kvs) =
     (distinct (map fst kvs) \<and> key_order (map fst kvs) \<and> printable_members e kvs)"
| "printable_elems e [] = True"
| "printable_elems e (v # vs) = (printable_json e v \<and> printable_elems e vs)"
| "printable_members e [] = True"
| "printable_members e ((k, v) # kvs) = (printable_json e v \<and> printable_members e kvs)"

definition delimited :: "string \<Rightarrow> bool" where
  "delimited r =
     (case r of [] \<Rightarrow> True | c # cs \<Rightarrow> c = CHR '','' \<or> c = CHR '']'' \<or> c = CHR ''}'')"

fun need :: "json \<Rightarrow> nat"
  and need_elems :: "json list \<Rightarrow> nat"
  and need_members :: "(string \<times> json) list \<Rightarrow> nat" where
  "need JNull = 1"
| "need (JBool b) = 1"
| "need (JNum n) = 1"
| "need (JStr s) = 1"
| "need (JArr vs) = Suc (need_elems vs)"
| "need (JObj kvs) = Suc (need_members kvs)"
| "need_elems [] = 0"
| "need_elems (v # vs) = Suc (need v + need_elems vs)"
| "need_members [] = 0"
| "need_members ((k, v) # kvs) = Suc (need v + need_members kvs)"

fun escape_units :: "string \<Rightarrow> junit list" where
  "escape_units [] = []"
| "escape_units (c # cs) =
     (if (of_char c :: nat) < 32 \<and> c \<noteq> CHR 0x08 \<and> c \<noteq> CHR 0x09 \<and> c \<noteq> CHR 0x0A \<and> c \<noteq> CHR 0x0C \<and> c \<noteq> CHR 0x0D
      then Esc (of_char c) else Raw c) # escape_units cs"

section \<open>Coercions of the language\<close>

text \<open>
  \<open>truthy\<close> is the test of \<^verbatim>\<open>!x\<close>, \<^verbatim>\<open>x || y\<close> and \<^verbatim>\<open>x ? a : b\<close>; \<open>None\<close> is
  \<^verbatim>\<open>undefined\<close>. \<open>field\<close> reads a property of \<^verbatim>\<open>req.body || {}\<close> in a
  destructuring pattern: the body parser hands over an object or an array, and an array
  has none of the properties the handlers name as its own (the inherited
  \<^verbatim>\<open>sort\<close> of an array is never used: every handler that reads it rejects the
  request first, for the missing label or title).

  \<open>js_to_string\<close> is \<^verbatim>\<open>String(x)\<close> and \<open>to_number\<close> is \<^verbatim>\<open>Number(x)\<close>. On an array
  both go through \<^verbatim>\<open>join\<close>; on an object they call the inherited
  \<^verbatim>\<open>toString\<close>, unless the object has an own property of that name, which a
  value read from JSON can never call: the conversion then throws a TypeError.
  \<open>trim_method\<close> is the call \<^verbatim>\<open>x.trim()\<close>, a TypeError on anything but a string;
  \<open>js_trim\<close> removes the white space and line terminators of the language from both
  ends.
\<close>

definition truthy :: "json option \<Rightarrow> bool" where
  "truthy v =
     (case v of
        None \<Rightarrow> False
      | Some JNull \<Rightarrow> False
      | Some (JBool b) \<Rightarrow> b
      | Some (JNum n) \<Rightarrow> n \<noteq> NaN \<and> n \<noteq> Fin 0 \<and> n \<noteq> NegZero
      | Some (JStr s) \<Rightarrow> s \<noteq> []
      | Some (JArr vs) \<Rightarrow> True
      | Some (JObj kvs) \<Rightarrow> True)"

definition field :: "json option \<Rightarrow> string \<Rightarrow> json option" where
  "field body k = (case body of Some (JObj kvs) \<Rightarrow> map_of kvs k | _ \<Rightarrow> None)"

fun js_to_string :: "env \<Rightarrow> json \<Rightarrow> js_error + string"
  and js_join :: "env \<Rightarrow> json list \<Rightarrow> js_error + string" where
  "js_to_string e JNull = Inr ''null''"
| "js_to_string e (JBool b) = Inr (if b then ''true'' else ''false'')"
| "js_to_string e (JNum n) = Inr (num_to_string e n)"
| "js_to_string e (JStr s) = Inr s"
| "js_to_string e (JArr vs) = js_join e vs"
| "js_to_string e (JObj kvs) =
     (if map_of kvs ''toString'' \<noteq> None then Inl TypeError else Inr ''[object Object]'')"
| "js_join e [] = Inr []"
| "js_join e (v # vs) =
     (case (if v = JNull then Inr [] else js_to_string e v) of
        Inl x \<Rightarrow> Inl x
      | Inr s \<Rightarrow>
          if vs = [] then Inr s
          else (case js_join e vs of Inl x \<Rightarrow> Inl x | Inr t \<Rightarrow> Inr (s @ '','' @ t)))"

definition to_number :: "env \<Rightarrow> json option \<Rightarrow> js_error + jsnum" where
  "to_number e v =
     (case v of
        None \<Rightarrow> Inr NaN
      | Some JNull \<Rightarrow> Inr (Fin 0)
      | Some (JBool b) \<Rightarrow> Inr (Fin (if b then 1 else 0))
      | Some (JNum n) \<Rightarrow> Inr n
      | Some (JStr s) \<Rightarrow> Inr (string_to_num e s)
      | Some (JArr vs) \<Rightarrow>
          (case js_join e vs of Inl x \<Rightarrow> Inl x | Inr s \<Rightarrow> Inr (string_to_num e s))
      | Some (JObj kvs) \<Rightarrow>
          if map_of kvs ''toString'' \<noteq> None then Inl TypeError else Inr NaN)"

definition is_ascii_space :: "char \<Rightarrow> bool" where
  "is_ascii_space c =
     (c = CHR 0x09 \<or> c = CHR 0x0A \<or> c = CHR 0x0B \<or> c = CHR 0x0C \<or> c = CHR 0x0D \<or> c = CHR 0x20)"

definition is_space2 :: "char \<Rightarrow> char \<Rightarrow> bool" where
  "is_space2 a b = (a = CHR 0xC2 \<and> b = CHR 0xA0)"

definition is_space3 :: "char \<Rightarrow> char \<Rightarrow> char \<Rightarrow> bool" where
  "is_space3 a b c =
     ((a = CHR 0xE1 \<and> b = CHR 0x9A \<and> c = CHR 0x80)
      \<or> (a = CHR 0xE2 \<and> b = CHR 0x80 \<and>
           ((0x80 \<le> (of_char c :: nat) \<and> (of_char c :: nat) \<le> 0x8A)
            \<or> c = CHR 0xA8 \<or> c = CHR 0xA9 \<or> c = CHR 0xAF))
      \<or> (a = CHR 0xE2 \<and> b = CHR 0x81 \<and> c = CHR 0x9F)
      \<or> (a = CHR 0xE3 \<and> b = CHR 0x80 \<and> c = CHR 0x80)
      \<or> (a = CHR 0xEF \<and> b = CHR 0xBB \<and> c = CHR 0xBF))"

fun trim_start :: "string \<Rightarrow> string" where
  "trim_start (a # b # c # r) =
     (if is_ascii_space a then trim_start (b # c # r)
      else if is_space2 a b then trim_start (c # r)
      else if is_space3 a b c then trim_start r
      else a # b # c # r)"
| "trim_start [a, b] =
     (if is_ascii_space a then trim_start [b]
      else if is_space2 a b then []
      else [a, b])"
| "trim_start [a] = (if is_ascii_space a then [] else [a])"
| "trim_start [] = []"

fun trim_end_rev :: "string \<Rightarrow> string" where
  "trim_end_rev (c # b # a # r) =
     (if is_ascii_space c then trim_end_rev (b # a # r)
      else if is_space2 b c then trim_end_rev (a # r)
      else if is_space3 a b c then trim_end_rev r
      else c # b # a # r)"
| "trim_end_rev [c, b] =
     (if is_ascii_space c then trim_end_rev [b]
      else if is_space2 b c then []
      else [c, b])"
| "trim_end_rev [c] = (if is_ascii_space c then [] else [c])"
| "trim_end_rev [] = []"

definition js_trim :: "string \<Rightarrow> string" where
  "js_trim s = rev (trim_end_rev (rev (trim_start s)))"

definition trim_method :: "json option \<Rightarrow> js_error + string" where
  "trim_method v = (case v of Some (JStr s) \<Rightarrow> Inr (js_trim s) | _ \<Rightarrow> Inl TypeError)"

definition js_lt :: "jsnum \<Rightarrow> jsnum \<Rightarrow> bool" where
  "js_lt a b =
     (case a of
        NaN \<Rightarrow> False
      | NegInf \<Rightarrow>
          (case b of Fin y \<Rightarrow> True | NegZero \<Rightarrow> True | PosInf \<Rightarrow> True | _ \<Rightarrow> False)
      | NegZero \<Rightarrow> (case b of Fin y \<Rightarrow> 0 < y | PosInf \<Rightarrow> True | _ \<Rightarrow> False)
      | Fin x \<Rightarrow>
          (case b of Fin y \<Rightarrow> x < y | NegZero \<Rightarrow> x < 0 | PosInf \<Rightarrow> True | _ \<Rightarrow> False)
      | PosInf \<Rightarrow> False)"

section \<open>The database driver\<close>

text \<open>
  \<open>bind_args\<close> is how the driver binds the arguments of \<^verbatim>\<open>run\<close> and \<^verbatim>\<open>get\<close> to
  the \<^verbatim>\<open>?\<close> parameters of a statement: an array argument is spread over the next
  parameters, a plain object binds named parameters only (the statements have none), a
  number is bound as a double (NaN becomes NULL), \<^verbatim>\<open>null\<close> and \<^verbatim>\<open>undefined\<close> as
  NULL, a string as text; a boolean cannot be bound, and the number of values must be
  the number of parameters. \<open>sql_compare\<close> is SQLite's order of stored values in
  \<^verbatim>\<open>ORDER BY\<close>: NULL first, then numbers by value, then text by its bytes.
  \<open>order_by\<close> sorts the rows of a table by the terms of an \<^verbatim>\<open>ORDER BY\<close> clause,
  each a column with its direction.

  The database is opened with the driver's default settings (\<^verbatim>\<open>db.js\<close>), so a
  stored integer reaches JavaScript as a double: \<open>int_to_double\<close> rounds an integer to
  the nearest number with 53 significant bits, a tie going to the even one
  (\<open>bit_length\<close> is the number of binary digits). A stored number that is not an
  integer is a double already (\<open>read_number\<close>). Row ids arrive the same way, in a row
  and as \<^verbatim>\<open>lastInsertRowid\<close> (\<open>int_number\<close>, \<open>js_int\<close>).
\<close>

definition bind_number :: "jsnum \<Rightarrow> sqlval" where
  "bind_number n =
     (case n of
        NaN \<Rightarrow> SqlNull
      | NegInf \<Rightarrow> SqlNegInf
      | NegZero \<Rightarrow> SqlNum 0
      | Fin q \<Rightarrow> SqlNum q
      | PosInf \<Rightarrow> SqlPosInf)"

definition bind_value :: "json option \<Rightarrow> js_error + sqlval" where
  "bind_value v =
     (case v of
        None \<Rightarrow> Inr SqlNull
      | Some JNull \<Rightarrow> Inr SqlNull
      | Some (JNum n) \<Rightarrow> Inr (bind_number n)
      | Some (JStr s) \<Rightarrow> Inr (SqlText s)
      | Some (JBool b) \<Rightarrow> Inl TypeError
      | Some (JArr vs) \<Rightarrow> Inl TypeError
      | Some (JObj kvs) \<Rightarrow> Inl TypeError)"

fun bind_all :: "json option list \<Rightarrow> js_error + sqlval list" where
  "bind_all [] = Inr []"
| "bind_all (v # vs) =
     (case bind_value v of
        Inl x \<Rightarrow> Inl x
      | Inr b \<Rightarrow> (case bind_all vs of Inl x \<Rightarrow> Inl x | Inr bs \<Rightarrow> Inr (b # bs)))"

fun spread_args :: "json option list \<Rightarrow> json option list" where
  "spread_args [] = []"
| "spread_args (a # as) =
     (case a of
        Some (JArr vs) \<Rightarrow> map Some vs @ spread_args as
      | Some (JObj kvs) \<Rightarrow> spread_args as
      | _ \<Rightarrow> a # spread_args as)"

definition bind_args :: "nat \<Rightarrow> json option list \<Rightarrow> js_error + sqlval list" where
  "bind_args nparams args =
     (case bind_all (spread_args args) of
        Inl x \<Rightarrow> Inl x
      | Inr bs \<Rightarrow> if length bs = nparams then Inr bs else Inl RangeError)"

definition store_integer :: "env \<Rightarrow> sqlval \<Rightarrow> sqlval" where
  "store_integer e v = (case v of SqlText s \<Rightarrow> integer_affinity e s | _ \<Rightarrow> v)"

fun bit_length :: "nat \<Rightarrow> nat" where
  "bit_length n = (if n = 0 then 0 else Suc (bit_length (n div 2)))"

declare bit_length.simps [simp del]

definition int_to_double :: "int \<Rightarrow> rat" where
  "int_to_double i =
     (let m = nat \<bar>i\<bar>; k = bit_length m - 53; q = m div 2 ^ k; r = m mod 2 ^ k;
          q' = (if 2 ^ k < 2 * r \<or> (2 * r = 2 ^ k \<and> odd q) then q + 1 else q)
      in of_int (sgn i * int (q' * 2 ^ k)))"

definition read_number :: "rat \<Rightarrow> rat" where
  "read_number q = (if of_int \<lfloor>q\<rfloor> = q then int_to_double \<lfloor>q\<rfloor> else q)"

definition sql_to_js :: "sqlval \<Rightarrow> json" where
  "sql_to_js v =
     (case v of
        SqlNull \<Rightarrow> JNull
      | SqlNegInf \<Rightarrow> JNum NegInf
      | SqlNum q \<Rightarrow> JNum (Fin (read_number q))
      | SqlPosInf \<Rightarrow> JNum PosInf
      | SqlText s \<Rightarrow> JStr s)"

definition int_number :: "int \<Rightarrow> jsnum" where
  "int_number i = Fin (int_to_double i)"

definition js_int :: "int \<Rightarrow> json" where
  "js_int i = JNum (int_number i)"

datatype cmp = LT | EQ | GT

definition sql_key :: "sqlval \<Rightarrow> nat \<times> rat \<times> string" where
  "sql_key v =
     (case v of
        SqlNull \<Rightarrow> (0, 0, [])
      | SqlNegInf \<Rightarrow> (1, 0, [])
      | SqlNum q \<Rightarrow> (2, q, [])
      | SqlPosInf \<Rightarrow> (3, 0, [])
      | SqlText s \<Rightarrow> (4, 0, s))"

definition sql_compare :: "sqlval \<Rightarrow> sqlval \<Rightarrow> cmp" where
  "sql_compare a b =
     (if sql_key a < sql_key b then LT else if sql_key a = sql_key b then EQ else GT)"

datatype direction = ASC | DESC

fun row_compare :: "(('r \<Rightarrow> sqlval) \<times> direction) list \<Rightarrow> 'r \<Rightarrow> 'r \<Rightarrow> cmp" where
  "row_compare [] a b = EQ"
| "row_compare ((f, dir) # ts) a b =
     (case sql_compare (f a) (f b) of
        EQ \<Rightarrow> row_compare ts a b
      | LT \<Rightarrow> (if dir = ASC then LT else GT)
      | GT \<Rightarrow> (if dir = ASC then GT else LT))"

fun insert_row :: "(('r \<Rightarrow> sqlval) \<times> direction) list \<Rightarrow> 'r \<Rightarrow> 'r list \<Rightarrow> 'r list" where
  "insert_row ts x [] = [x]"
| "insert_row ts x (y # ys) =
     (if row_compare ts x y = GT then y # insert_row ts x ys else x # y # ys)"

definition order_by :: "(('r \<Rightarrow> sqlval) \<times> direction) list \<Rightarrow> 'r list \<Rightarrow> 'r list" where
  "order_by ts rows = foldr (insert_row ts) rows []"

section \<open>The schema (db.js)\<close>

text \<open>
  One record per table of \<^verbatim>\<open>db.js\<close>, a table being the list of its rows. A column
  that only ever receives strings is a \<open>string\<close>, an \<^verbatim>\<open>INTEGER PRIMARY KEY\<close> is an
  \<open>int\<close>, and the other columns hold whatever SQLite stored (\<open>sqlval\<close>). A new row
  gets the largest id in use plus one (\<open>next_rowid\<close>). \<open>seed_content\<close> is the seeding
  of the content row at start-up.
\<close>

record user_row =
  u_id :: int
  u_username :: string
  u_password_hash :: string
  u_role :: string
  u_created_at :: string

record content_row =
  c_id :: int
  c_hero_headline :: string
  c_hero_subtitle :: string
  c_updated_at :: string

record skill_row =
  s_id :: int
  s_label :: string
  s_percent :: sqlval
  s_sort :: sqlval

record project_row =
  p_id :: int
  p_title :: string
  p_summary :: string
  p_stack :: string
  p_links_json :: string
  p_featured :: sqlval
  p_sort :: sqlval
  p_created_at :: string
  p_updated_at :: string

record audit_row =
  a_id :: int
  a_actor :: string
  a_action :: string
  a_entity :: string
  a_entity_id :: sqlval
  a_meta_json :: string
  a_created_at :: string

record db =
  users :: "user_row list"
  content :: "content_row list"
  skills :: "skill_row list"
  projects :: "project_row list"
  audit_log :: "audit_row list"

record session_user =
  su_username :: string
  su_role :: string

definition next_rowid :: "int list \<Rightarrow> int" where
  "next_rowid ids = (case ids of [] \<Rightarrow> 1 | i # is \<Rightarrow> fold max is i + 1)"

definition id_matches :: "int \<Rightarrow> sqlval \<Rightarrow> bool" where
  "id_matches i b = (b = SqlNum (of_int i))"

definition default_headline :: string where
  "default_headline = ''TR-KING '' @ [CHR 0xE2, CHR 0x80, CHR 0x94] @ '' Software Developer''"

definition default_subtitle :: string where
  "default_subtitle = ''I build modern web apps and reliable APIs with JavaScript and Python, and I train custom AI LoRAs as part of practical ML workflows.''"

definition empty_db :: db where
  "empty_db = \<lparr> users = [], content = [], skills = [], projects = [], audit_log = [] \<rparr>"

definition seed_content :: "env \<Rightarrow> db \<Rightarrow> db" where
  "seed_content e d =
     (case find (\<lambda>r. c_id r = 1) (content d) of
        Some r \<Rightarrow> d
      | None \<Rightarrow>
          d\<lparr> content := content d @
               [\<lparr> c_id = 1, c_hero_headline = default_headline,
                  c_hero_subtitle = default_subtitle, c_updated_at = now e \<rparr>] \<rparr>)"

section \<open>The handlers (server.js)\<close>

text \<open>
  A handler takes the environment, the parsed body and route parameter of the request,
  the database and the user of the request's session (\<open>None\<close> when the session has
  none), and returns its reply, the database and the session's user afterwards.
\<close>

definition requireAuth ::
  "session_user option \<Rightarrow> db \<Rightarrow> (session_user \<Rightarrow> reply \<times> db \<times> session_user option)
     \<Rightarrow> reply \<times> db \<times> session_user option" where
  "requireAuth sess d next =
     (case sess of
        None \<Rightarrow> (Json 401 (JObj [(''error'', JStr ''Unauthorized'')]), d, None)
      | Some u \<Rightarrow> next u)"

definition audit :: "env \<Rightarrow> string \<Rightarrow> string \<Rightarrow> string \<Rightarrow> jsnum option \<Rightarrow> json \<Rightarrow> db \<Rightarrow> db" where
  "audit e actor action entity entity_id meta d =
     d\<lparr> audit_log := audit_log d @
          [\<lparr> a_id = next_rowid (map a_id (audit_log d)),
             a_actor = actor, a_action = action, a_entity = entity,
             a_entity_id = (case entity_id of None \<Rightarrow> SqlNull | Some n \<Rightarrow> bind_number n),
             a_meta_json = stringify e meta,
             a_created_at = now e \<rparr>] \<rparr>"

definition error_body :: "string \<Rightarrow> json" where
  "error_body msg = JObj [(''error'', JStr msg)]"

definition ok_body :: json where
  "ok_body = JObj [(''ok'', JBool True)]"

definition ok_id_body :: "int \<Rightarrow> json" where
  "ok_id_body i = JObj [(''ok'', JBool True), (''id'', js_int i)]"

definition js_object :: "(string \<times> json option) list \<Rightarrow> json" where
  "js_object kvs = JObj (List.map_filter (\<lambda>kv. map_option (Pair (fst kv)) (snd kv)) kvs)"

definition user_matches :: "env \<Rightarrow> user_row \<Rightarrow> sqlval \<Rightarrow> bool" where
  "user_matches e r b =
     (case b of
        SqlNull \<Rightarrow> False
      | SqlText s \<Rightarrow> u_username r = s
      | _ \<Rightarrow> u_username r = text_affinity e b)"

definition user_json :: "session_user \<Rightarrow> json" where
  "user_json u = JObj [(''username'', JStr (su_username u)), (''role'', JStr (su_role u))]"

definition login ::
  "env \<Rightarrow> json option \<Rightarrow> db \<Rightarrow> session_user option \<Rightarrow> reply \<times> db \<times> session_user option" where
  "login e body d sess =
     (let username = field body ''username''; password = field body ''password'' in
      case bind_args 1 [username] of
        Inl x \<Rightarrow> (Uncaught x, d, sess)
      | Inr bs \<Rightarrow>
          (case find (\<lambda>r. user_matches e r (bs ! 0)) (users d) of
             None \<Rightarrow> (Json 401 (error_body ''Invalid credentials''), d, sess)
           | Some user \<Rightarrow>
               (case password of
                  Some (JStr p) \<Rightarrow>
                    (case compareSync e p (u_password_hash user) of
                       None \<Rightarrow> (Uncaught Error, d, sess)
                     | Some ok \<Rightarrow>
                         if \<not> ok
                         then (Json 401 (error_body ''Invalid credentials''), d, sess)
                         else
                           (let su = \<lparr> su_username = u_username user, su_role = u_role user \<rparr> in
                            (Json 200 (JObj [(''ok'', JBool True), (''user'', user_json su)]),
                             audit e (u_username user) ''login'' ''auth'' None (JObj []) d,
                             Some su)))
                | _ \<Rightarrow> (Uncaught Error, d, sess))))"

definition logout :: "env \<Rightarrow> db \<Rightarrow> session_user \<Rightarrow> reply \<times> db \<times> session_user option" where
  "logout e d u =
     (let actor = su_username u in
      (Json 200 ok_body, audit e actor ''logout'' ''auth'' None (JObj []) d, None))"

definition me :: "session_user option \<Rightarrow> reply" where
  "me sess = Json 200 (JObj [(''user'', (case sess of None \<Rightarrow> JNull | Some u \<Rightarrow> user_json u))])"

definition select_content :: "db \<Rightarrow> json option" where
  "select_content d =
     (case find (\<lambda>r. c_id r = 1) (content d) of
        None \<Rightarrow> None
      | Some r \<Rightarrow>
          Some (JObj [(''hero_headline'', JStr (c_hero_headline r)),
                      (''hero_subtitle'', JStr (c_hero_subtitle r)),
                      (''updated_at'', JStr (c_updated_at r))]))"

definition skill_public_json :: "skill_row \<Rightarrow> json" where
  "skill_public_json r =
     JObj [(''id'', js_int (s_id r)), (''label'', JStr (s_label r)), (''percent'', sql_to_js (s_percent r))]"

definition skill_json :: "skill_row \<Rightarrow> json" where
  "skill_json r =
     JObj [(''id'', js_int (s_id r)), (''label'', JStr (s_label r)),
           (''percent'', sql_to_js (s_percent r)), (''sort'', sql_to_js (s_sort r))]"

definition project_columns :: "project_row \<Rightarrow> (string \<times> json) list" where
  "project_columns r =
     [(''id'', js_int (p_id r)), (''title'', JStr (p_title r)), (''summary'', JStr (p_summary r)),
      (''stack'', JStr (p_stack r)), (''links_json'', JStr (p_links_json r)),
      (''featured'', sql_to_js (p_featured r)), (''sort'', sql_to_js (p_sort r)),
      (''updated_at'', JStr (p_updated_at r))]"

definition expand_links :: "env \<Rightarrow> project_row \<Rightarrow> js_error + json" where
  "expand_links e r =
     (case json_parse e (if p_links_json r = [] then ''[]'' else p_links_json r) of
        None \<Rightarrow> Inl SyntaxError
      | Some v \<Rightarrow> Inr (JObj (project_columns r @ [(''links'', v)])))"

fun map_rows :: "('r \<Rightarrow> js_error + json) \<Rightarrow> 'r list \<Rightarrow> js_error + json list" where
  "map_rows f [] = Inr []"
| "map_rows f (r # rs) =
     (case f r of
        Inl x \<Rightarrow> Inl x
      | Inr v \<Rightarrow> (case map_rows f rs of Inl x \<Rightarrow> Inl x | Inr vs \<Rightarrow> Inr (v # vs)))"

definition get_public_content :: "env \<Rightarrow> db \<Rightarrow> reply" where
  "get_public_content e d =
     (let content' = select_content d;
          skills' = map skill_public_json
                      (order_by [(s_sort, ASC), (\<lambda>r. SqlNum (of_int (s_id r)), ASC)] (skills d)) in
      case map_rows (expand_links e)
             (order_by [(p_featured, DESC), (p_sort, ASC), (\<lambda>r. SqlNum (of_int (p_id r)), DESC)]
                (projects d)) of
        Inl x \<Rightarrow> Uncaught x
      | Inr projects' \<Rightarrow>
          Json 200 (js_object [(''content'', content'), (''skills'', Some (JArr skills')),
                               (''projects'', Some (JArr projects'))]))"

definition get_admin_content :: "db \<Rightarrow> reply" where
  "get_admin_content d = Json 200 (js_object [(''content'', select_content d)])"

definition put_admin_content :: "env \<Rightarrow> json option \<Rightarrow> db \<Rightarrow> session_user \<Rightarrow> reply \<times> db" where
  "put_admin_content e body d u =
     (let hero_headline = field body ''hero_headline''; hero_subtitle = field body ''hero_subtitle'' in
      if \<not> truthy hero_headline \<or> \<not> truthy hero_subtitle
      then (Json 400 (error_body ''Missing fields''), d)
      else
        (case trim_method hero_headline of
           Inl x \<Rightarrow> (Uncaught x, d)
         | Inr h \<Rightarrow>
             (case trim_method hero_subtitle of
                Inl x \<Rightarrow> (Uncaught x, d)
              | Inr s \<Rightarrow>
                  (let d1 = d\<lparr> content :=
                              map (\<lambda>r. if c_id r = 1
                                        then r\<lparr> c_hero_headline := h, c_hero_subtitle := s,
                                                c_updated_at := now e \<rparr>
                                        else r) (content d) \<rparr>
                   in (Json 200 ok_body,
                       audit e (su_username u) ''update'' ''content'' (Some (Fin 1)) (JObj []) d1)))))"

definition get_admin_skills :: "db \<Rightarrow> reply" where
  "get_admin_skills d =
     Json 200 (JObj [(''skills'',
       JArr (map skill_json
               (order_by [(s_sort, ASC), (\<lambda>r. SqlNum (of_int (s_id r)), ASC)] (skills d))))])"

definition percent_invalid :: "jsnum \<Rightarrow> bool" where
  "percent_invalid pct = (\<not> is_finite pct \<or> js_lt pct (Fin 0) \<or> js_lt (Fin 100) pct)"

definition with_default :: "json option \<Rightarrow> json \<Rightarrow> json option" where
  "with_default v dflt = (case v of None \<Rightarrow> Some dflt | Some x \<Rightarrow> Some x)"

definition post_admin_skills :: "env \<Rightarrow> json option \<Rightarrow> db \<Rightarrow> session_user \<Rightarrow> reply \<times> db" where
  "post_admin_skills e body d u =
     (let label = field body ''label''; percent = field body ''percent'';
          sort = with_default (field body ''sort'') (JNum (Fin 0)) in
      if \<not> truthy label then (Json 400 (error_body ''Label required''), d)
      else
        (case to_number e percent of
           Inl x \<Rightarrow> (Uncaught x, d)
         | Inr pct \<Rightarrow>
             if percent_invalid pct then (Json 400 (error_body ''Percent 0-100''), d)
             else
               (case trim_method label of
                  Inl x \<Rightarrow> (Uncaught x, d)
                | Inr l \<Rightarrow>
                    (case bind_args 3 [Some (JStr l), Some (JNum pct), sort] of
                       Inl x \<Rightarrow> (Uncaught x, d)
                     | Inr bs \<Rightarrow>
                         if store_integer e (bs ! 2) = SqlNull then (Uncaught SqliteError, d)
                         else
                           (let lastInsertRowid = next_rowid (map s_id (skills d));
                                d1 = d\<lparr> skills := skills d @
                                       [\<lparr> s_id = lastInsertRowid, s_label = l, s_percent = bs ! 1,
                                          s_sort = store_integer e (bs ! 2) \<rparr>] \<rparr>
                            in (Json 200 (ok_id_body lastInsertRowid),
                                audit e (su_username u) ''create'' ''skill''
                                  (Some (int_number lastInsertRowid))
                                  (js_object [(''label'', label), (''percent'', Some (JNum pct))]) d1))))))"

definition put_admin_skill ::
  "env \<Rightarrow> string \<Rightarrow> json option \<Rightarrow> db \<Rightarrow> session_user \<Rightarrow> reply \<times> db" where
  "put_admin_skill e id_param body d u =
     (let id = string_to_num e id_param;
          label = field body ''label''; percent = field body ''percent'';
          sort = with_default (field body ''sort'') (JNum (Fin 0)) in
      case to_number e percent of
        Inl x \<Rightarrow> (Uncaught x, d)
      | Inr pct \<Rightarrow>
          if \<not> truthy label then (Json 400 (error_body ''Label required''), d)
          else if percent_invalid pct then (Json 400 (error_body ''Percent 0-100''), d)
          else
            (case trim_method label of
               Inl x \<Rightarrow> (Uncaught x, d)
             | Inr l \<Rightarrow>
                 (case bind_args 4 [Some (JStr l), Some (JNum pct), sort, Some (JNum id)] of
                    Inl x \<Rightarrow> (Uncaught x, d)
                  | Inr bs \<Rightarrow>
                      if store_integer e (bs ! 2) = SqlNull
                         \<and> filter (\<lambda>r. id_matches (s_id r) (bs ! 3)) (skills d) \<noteq> []
                      then (Uncaught SqliteError, d)
                      else
                        (let d1 = d\<lparr> skills :=
                                    map (\<lambda>r. if id_matches (s_id r) (bs ! 3)
                                              then r\<lparr> s_label := l, s_percent := bs ! 1,
                                                      s_sort := store_integer e (bs ! 2) \<rparr>
                                              else r) (skills d) \<rparr>
                         in (Json 200 ok_body,
                             audit e (su_username u) ''update'' ''skill'' (Some id)
                               (js_object [(''label'', label), (''percent'', Some (JNum pct))]) d1)))))"

definition delete_admin_skill :: "env \<Rightarrow> string \<Rightarrow> db \<Rightarrow> session_user \<Rightarrow> reply \<times> db" where
  "delete_admin_skill e id_param d u =
     (let id = string_to_num e id_param in
      case bind_args 1 [Some (JNum id)] of
        Inl x \<Rightarrow> (Uncaught x, d)
      | Inr bs \<Rightarrow>
          (let d1 = d\<lparr> skills := filter (\<lambda>r. \<not> id_matches (s_id r) (bs ! 0)) (skills d) \<rparr>
           in (Json 200 ok_body,
               audit e (su_username u) ''delete'' ''skill'' (Some id) (JObj []) d1)))"

definition get_admin_projects :: "env \<Rightarrow> db \<Rightarrow> reply" where
  "get_admin_projects e d =
     (case map_rows (expand_links e)
             (order_by [(p_featured, DESC), (p_sort, ASC), (\<lambda>r. SqlNum (of_int (p_id r)), DESC)]
                (projects d)) of
        Inl x \<Rightarrow> Uncaught x
      | Inr projects' \<Rightarrow> Json 200 (JObj [(''projects'', JArr projects')]))"

definition stack_text :: "env \<Rightarrow> json option \<Rightarrow> js_error + string" where
  "stack_text e stack =
     (case js_to_string e (if truthy stack then the stack else JStr []) of
        Inl x \<Rightarrow> Inl x
      | Inr s \<Rightarrow> Inr (js_trim s))"

definition links_text :: "env \<Rightarrow> json option \<Rightarrow> string" where
  "links_text e links = stringify e (case links of Some (JArr vs) \<Rightarrow> JArr vs | _ \<Rightarrow> JArr [])"

definition featured_flag :: "json option \<Rightarrow> json" where
  "featured_flag featured = JNum (Fin (if truthy featured then 1 else 0))"

definition post_admin_projects :: "env \<Rightarrow> json option \<Rightarrow> db \<Rightarrow> session_user \<Rightarrow> reply \<times> db" where
  "post_admin_projects e body d u =
     (let title = field body ''title''; summary = field body ''summary'';
          stack = with_default (field body ''stack'') (JStr []);
          links = with_default (field body ''links'') (JArr []);
          featured = with_default (field body ''featured'') (JNum (Fin 0));
          sort = with_default (field body ''sort'') (JNum (Fin 0)) in
      if \<not> truthy title \<or> \<not> truthy summary
      then (Json 400 (error_body ''Title and summary required''), d)
      else
        (case trim_method title of
           Inl x \<Rightarrow> (Uncaught x, d)
         | Inr t \<Rightarrow>
             (case trim_method summary of
                Inl x \<Rightarrow> (Uncaught x, d)
              | Inr s \<Rightarrow>
                  (case stack_text e stack of
                     Inl x \<Rightarrow> (Uncaught x, d)
                   | Inr st \<Rightarrow>
                       (case bind_args 6 [Some (JStr t), Some (JStr s), Some (JStr st),
                                          Some (JStr (links_text e links)),
                                          Some (featured_flag featured), sort] of
                          Inl x \<Rightarrow> (Uncaught x, d)
                        | Inr bs \<Rightarrow>
                            if store_integer e (bs ! 5) = SqlNull then (Uncaught SqliteError, d)
                            else
                              (let lastInsertRowid = next_rowid (map p_id (projects d));
                                   d1 = d\<lparr> projects := projects d @
                                          [\<lparr> p_id = lastInsertRowid, p_title = t, p_summary = s,
                                             p_stack = st, p_links_json = links_text e links,
                                             p_featured = bs ! 4,
                                             p_sort = store_integer e (bs ! 5),
                                             p_created_at = now e, p_updated_at = now e \<rparr>] \<rparr>
                               in (Json 200 (ok_id_body lastInsertRowid),
                                   audit e (su_username u) ''create'' ''project''
                                     (Some (int_number lastInsertRowid))
                                     (js_object [(''title'', title)]) d1)))))))"

definition put_admin_project ::
  "env \<Rightarrow> string \<Rightarrow> json option \<Rightarrow> db \<Rightarrow> session_user \<Rightarrow> reply \<times> db" where
  "put_admin_project e id_param body d u =
     (let id = string_to_num e id_param;
          title = field body ''title''; summary = field body ''summary'';
          stack = with_default (field body ''stack'') (JStr []);
          links = with_default (field body ''links'') (JArr []);
          featured = with_default (field body ''featured'') (JNum (Fin 0));
          sort = with_default (field body ''sort'') (JNum (Fin 0)) in
      if \<not> truthy title \<or> \<not> truthy summary
      then (Json 400 (error_body ''Title and summary required''), d)
      else
        (case trim_method title of
           Inl x \<Rightarrow> (Uncaught x, d)
         | Inr t \<Rightarrow>
             (case trim_method summary of
                Inl x \<Rightarrow> (Uncaught x, d)
              | Inr s \<Rightarrow>
                  (case stack_text e stack of
                     Inl x \<Rightarrow> (Uncaught x, d)
                   | Inr st \<Rightarrow>
                       (case bind_args 7 [Some (JStr t), Some (JStr s), Some (JStr st),
                                          Some (JStr (links_text e links)),
                                          Some (featured_flag featured), sort, Some (JNum id)] of
                          Inl x \<Rightarrow> (Uncaught x, d)
                        | Inr bs \<Rightarrow>
                            if store_integer e (bs ! 5) = SqlNull
                               \<and> filter (\<lambda>r. id_matches (p_id r) (bs ! 6)) (projects d) \<noteq> []
                            then (Uncaught SqliteError, d)
                            else
                              (let d1 = d\<lparr> projects :=
                                          map (\<lambda>r. if id_matches (p_id r) (bs ! 6)
                                                    then r\<lparr> p_title := t, p_summary := s,
                                                            p_stack := st,
                                                            p_links_json := links_text e links,
                                                            p_featured := bs ! 4,
                                                            p_sort := store_integer e (bs ! 5),
                                                            p_updated_at := now e \<rparr>
                                                    else r) (projects d) \<rparr>
                               in (Json 200 ok_body,
                                   audit e (su_username u) ''update'' ''project'' (Some id)
                                     (js_object [(''title'', title)]) d1)))))))"

definition delete_admin_project :: "env \<Rightarrow> string \<Rightarrow> db \<Rightarrow> session_user \<Rightarrow> reply \<times> db" where
  "delete_admin_project e id_param d u =
     (let id = string_to_num e id_param in
      case bind_args 1 [Some (JNum id)] of
        Inl x \<Rightarrow> (Uncaught x, d)
      | Inr bs \<Rightarrow>
          (let d1 = d\<lparr> projects := filter (\<lambda>r. \<not> id_matches (p_id r) (bs ! 0)) (projects d) \<rparr>
           in (Json 200 ok_body,
               audit e (su_username u) ''delete'' ''project'' (Some id) (JObj []) d1)))"

text \<open>
  The routes of the API, and the dispatch of a request through \<^verbatim>\<open>requireAuth\<close> to
  its handler.
\<close>

datatype request =
    PostLogin "json option"
  | PostLogout
  | GetMe
  | GetPublicContent
  | GetAdminContent
  | PutAdminContent "json option"
  | GetAdminSkills
  | PostAdminSkills "json option"
  | PutAdminSkill string "json option"
  | DeleteAdminSkill string
  | GetAdminProjects
  | PostAdminProjects "json option"
  | PutAdminProject string "json option"
  | DeleteAdminProject string

definition keep_session ::
  "session_user option \<Rightarrow> reply \<times> db \<Rightarrow> reply \<times> db \<times> session_user option" where
  "keep_session sess rd = (fst rd, snd rd, sess)"

fun handle ::
  "env \<Rightarrow> request \<Rightarrow> db \<Rightarrow> session_user option \<Rightarrow> reply \<times> db \<times> session_user option" where
  "handle e (PostLogin body) d sess = login e body d sess"
| "handle e PostLogout d sess = requireAuth sess d (\<lambda>u. logout e d u)"
| "handle e GetMe d sess = (me sess, d, sess)"
| "handle e GetPublicContent d sess = (get_public_content e d, d, sess)"
| "handle e GetAdminContent d sess = requireAuth sess d (\<lambda>u. (get_admin_content d, d, sess))"
| "handle e (PutAdminContent body) d sess =
     requireAuth sess d (\<lambda>u. keep_session sess (put_admin_content e body d u))"
| "handle e GetAdminSkills d sess = requireAuth sess d (\<lambda>u. (get_admin_skills d, d, sess))"
| "handle e (PostAdminSkills body) d sess =
     requireAuth sess d (\<lambda>u. keep_session sess (post_admin_skills e body d u))"
| "handle e (PutAdminSkill i body) d sess =
     requireAuth sess d (\<lambda>u. keep_session sess (put_admin_skill e i body d u))"
| "handle e (DeleteAdminSkill i) d sess =
     requireAuth sess d (\<lambda>u. keep_session sess (delete_admin_skill e i d u))"
| "handle e GetAdminProjects d sess = requireAuth sess d (\<lambda>u. (get_admin_projects e d, d, sess))"
| "handle e (PostAdminProjects body) d sess =
     requireAuth sess d (\<lambda>u. keep_session sess (post_admin_projects e body d u))"
| "handle e (PutAdminProject i body) d sess =
     requireAuth sess d (\<lambda>u. keep_session sess (put_admin_project e i body d u))"
| "handle e (DeleteAdminProject i) d sess =
     requireAuth sess d (\<lambda>u. keep_session sess (delete_admin_project e i d u))"

fun is_admin_route :: "request \<Rightarrow> bool" where
  "is_admin_route (PostLogin body) = False"
| "is_admin_route PostLogout = False"
| "is_admin_route GetMe = False"
| "is_admin_route GetPublicContent = False"
| "is_admin_route r = True"

section \<open>The orders of the specification, and fixtures\<close>

text \<open>
  The listing orders in the words of the specification: skills by sort ascending, then
  id ascending; projects featured first, then sort ascending, then id descending.
  \<open>row_le\<close> is "not after" in the order of an \<^verbatim>\<open>ORDER BY\<close> clause.
\<close>

definition sql_less :: "sqlval \<Rightarrow> sqlval \<Rightarrow> bool" where
  "sql_less a b = (sql_compare a b = LT)"

definition skills_listing_order :: "skill_row \<Rightarrow> skill_row \<Rightarrow> bool" where
  "skills_listing_order a b =
     (sql_less (s_sort a) (s_sort b) \<or> (s_sort a = s_sort b \<and> s_id a \<le> s_id b))"

definition projects_listing_order :: "project_row \<Rightarrow> project_row \<Rightarrow> bool" where
  "projects_listing_order a b =
     (sql_less (p_featured b) (p_featured a)
      \<or> (p_featured a = p_featured b
          \<and> (sql_less (p_sort a) (p_sort b) \<or> (p_sort a = p_sort b \<and> p_id b \<le> p_id a))))"

definition row_le :: "(('r \<Rightarrow> sqlval) \<times> direction) list \<Rightarrow> 'r \<Rightarrow> 'r \<Rightarrow> bool" where
  "row_le ts a b = (row_compare ts a b \<noteq> GT)"

text \<open>
  The same orders read off the rows of a reply: \<open>shown_value\<close> is the value a row of
  a reply shows under a name, taken back to the kind of value the order compares.
  \<open>exact_value\<close> holds of the stored values that reach the reply unrounded: everything
  but a number beyond \<^verbatim>\<open>2^53\<close> in size.
\<close>

definition shown_value :: "json \<Rightarrow> string \<Rightarrow> sqlval" where
  "shown_value row k =
     (case bind_value (field (Some row) k) of Inl x \<Rightarrow> SqlNull | Inr b \<Rightarrow> b)"

definition skills_reply_order :: "json \<Rightarrow> json \<Rightarrow> bool" where
  "skills_reply_order a b =
     (sql_less (shown_value a ''sort'') (shown_value b ''sort'')
      \<or> (shown_value a ''sort'' = shown_value b ''sort''
          \<and> \<not> sql_less (shown_value b ''id'') (shown_value a ''id'')))"

definition projects_reply_order :: "json \<Rightarrow> json \<Rightarrow> bool" where
  "projects_reply_order a b =
     (sql_less (shown_value b ''featured'') (shown_value a ''featured'')
      \<or> (shown_value a ''featured'' = shown_value b ''featured''
          \<and> (sql_less (shown_value a ''sort'') (shown_value b ''sort'')
               \<or> (shown_value a ''sort'' = shown_value b ''sort''
                   \<and> \<not> sql_less (shown_value a ''id'') (shown_value b ''id'')))))"

definition exact_value :: "sqlval \<Rightarrow> bool" where
  "exact_value v = (case v of SqlNum q \<Rightarrow> \<bar>q\<bar> \<le> 2 ^ 53 | _ \<Rightarrow> True)"

definition exact_skill :: "skill_row \<Rightarrow> bool" where
  "exact_skill r = (exact_value (s_sort r) \<and> \<bar>s_id r\<bar> \<le> 2 ^ 53)"

definition exact_project :: "project_row \<Rightarrow> bool" where
  "exact_project r =
     (exact_value (p_featured r) \<and> exact_value (p_sort r) \<and> \<bar>p_id r\<bar> \<le> 2 ^ 53)"

text \<open>
  \<open>content_invariant\<close> says that the content table holds exactly one row, with id 1.
  \<open>links_readable\<close> says that the listing can expand a project's stored links.
  \<open>drop_field\<close> removes one property from a row of a response, and \<open>expanded\<close> is the
  row the listing returns for a project whose links are readable.
\<close>

definition content_invariant :: "db \<Rightarrow> bool" where
  "content_invariant d = (map c_id (content d) = [1])"

definition links_readable :: "env \<Rightarrow> project_row \<Rightarrow> bool" where
  "links_readable e p =
     (json_parse e (if p_links_json p = [] then ''[]'' else p_links_json p) \<noteq> None)"

definition drop_field :: "string \<Rightarrow> json \<Rightarrow> json" where
  "drop_field k v = (case v of JObj kvs \<Rightarrow> JObj (filter (\<lambda>kv. fst kv \<noteq> k) kvs) | _ \<Rightarrow> v)"

definition expanded :: "env \<Rightarrow> project_row \<Rightarrow> json" where
  "expanded e p =
     JObj (project_columns p @
       [(''links'', the (json_parse e (if p_links_json p = [] then ''[]'' else p_links_json p)))])"

text \<open>
  A concrete environment, user and database, for the instances below. The environment
  is that of the platform on the inputs the instances use: it prints a natural number
  in decimal digits (\<open>print_nat\<close>) and the negative zero as \<^verbatim>\<open>0\<close>, reads a text
  of decimal digits as the double nearest to the number it denotes, the literal
  \<^verbatim>\<open>1e999\<close>, which is beyond the largest double, as \<^verbatim>\<open>Infinity\<close> and
  \<^verbatim>\<open>-0\<close> as the negative zero, and stores a text of at most 18 decimal digits in
  a column of INTEGER affinity as the integer it denotes.
\<close>

fun print_nat :: "nat \<Rightarrow> string" where
  "print_nat n =
     (if n < 10 then [hex_digit n] else print_nat (n div 10) @ [hex_digit (n mod 10)])"

declare print_nat.simps [simp del]

definition is_digits :: "string \<Rightarrow> bool" where
  "is_digits s = (s \<noteq> [] \<and> list_all is_digit s)"

definition example_env :: env where
  "example_env =
     \<lparr> now = ''2024-05-01 12:00:00'',
       num_to_string =
         (\<lambda>n. case n of Fin q \<Rightarrow> print_nat (nat \<lfloor>q\<rfloor>) | NegZero \<Rightarrow> ''0''
               | NaN \<Rightarrow> ''NaN'' | PosInf \<Rightarrow> ''Infinity'' | NegInf \<Rightarrow> ''-Infinity''),
       string_to_num =
         (\<lambda>s. if s = ''1e999'' then PosInf
              else if s = ''-0'' then NegZero
              else if is_digits s then Fin (int_to_double (dec_val s)) else NaN),
       compareSync = (\<lambda>p h. Some (h = ''bcrypt:'' @ p)),
       integer_affinity =
         (\<lambda>s. if is_digits s \<and> length s \<le> 18 then SqlNum (of_int (dec_val s)) else SqlText s),
       text_affinity = (\<lambda>v. []) \<rparr>"

definition example_user :: session_user where
  "example_user = \<lparr> su_username = ''admin'', su_role = ''admin'' \<rparr>"

definition example_db :: db where
  "example_db =
     \<lparr> users = [\<lparr> u_id = 1, u_username = ''admin'', u_password_hash = ''bcrypt:secret'',
                   u_role = ''admin'', u_created_at = ''2024-01-01 00:00:00'' \<rparr>],
       content = [\<lparr> c_id = 1, c_hero_headline = ''Old'', c_hero_subtitle = ''Older'',
                     c_updated_at = ''2024-01-01 00:00:00'' \<rparr>],
       skills = [\<lparr> s_id = 1, s_label = ''Go'', s_percent = SqlNum 80, s_sort = SqlNum 2 \<rparr>,
                 \<lparr> s_id = 2, s_label = ''JS'', s_percent = SqlNum 90, s_sort = SqlNum 1 \<rparr>,
                 \<lparr> s_id = 3, s_label = ''Py'', s_percent = SqlNum 70, s_sort = SqlNum 1 \<rparr>],
       projects = [\<lparr> p_id = 1, p_title = ''Blog'', p_summary = ''A blog'', p_stack = ''JS'',
                      p_links_json = ''[]'', p_featured = SqlNum 0, p_sort = SqlNum 0,
                      p_created_at = ''2024-01-02 00:00:00'',
                      p_updated_at = ''2024-01-02 00:00:00'' \<rparr>,
                   \<lparr> p_id = 2, p_title = ''Shop'', p_summary = ''A shop'', p_stack = ''Python'',
                      p_links_json = ''[]'', p_featured = SqlNum 1, p_sort = SqlNum 3,
                      p_created_at = ''2024-01-03 00:00:00'',
                      p_updated_at = ''2024-01-03 00:00:00'' \<rparr>],
       audit_log = [] \<rparr>"

section \<open>JSON round trip\<close>

lemma hex_val_hex_digit: "d < 16 \<Longrightarrow> hex_val (hex_digit d) = Some d"
proof -
  assume "d < 16"
  then have "d = 0 \<or> d = 1 \<or> d = 2 \<or> d = 3 \<or> d = 4 \<or> d = 5 \<or> d = 6 \<or> d = 7
      \<or> d = 8 \<or> d = 9 \<or> d = 10 \<or> d = 11 \<or> d = 12 \<or> d = 13 \<or> d = 14 \<or> d = 15"
    by arith
  then show ?thesis
    by (auto simp: hex_val_def hex_digit_def)
qed

lemma hex_val_zero: "hex_val (CHR ''0'') = Some 0"
  by (simp add: hex_val_def)

lemma hex4_control:
  assumes "n < 32"
  shows "hex4 (CHR ''0'') (CHR ''0'') (hex_digit (n div 16)) (hex_digit (n mod 16)) = Some n"
proof -
  have a: "n div 16 < 16" using assms by simp
  have b: "n mod 16 < 16" by simp
  show ?thesis
    by (simp add: hex4_def hex_val_zero hex_val_hex_digit [OF a] hex_val_hex_digit [OF b])
qed

lemma scan_string_quote_chars:
  "scan_string (quote_chars s @ CHR 0x22 # r) = Some (escape_units s, r)"
proof (induction s)
  case Nil
  show ?case by simp
next
  case (Cons c cs)
  show ?case
  proof (cases "(of_char c :: nat) < 32")
    case True
    then have ne: "c \<noteq> CHR 0x22" "c \<noteq> CHR 0x5C" by auto
    show ?thesis
      using True ne Cons.IH
      by (simp add: simple_escape_def cons_unit_def hex4_control)
  next
    case False
    then have ne: "c \<noteq> CHR 0x08" "c \<noteq> CHR 0x09" "c \<noteq> CHR 0x0A" "c \<noteq> CHR 0x0C" "c \<noteq> CHR 0x0D"
      by auto
    show ?thesis
      using False ne Cons.IH
      by (simp add: simple_escape_def cons_unit_def)
  qed
qed

lemma utf8_encode_ascii: "n < 128 \<Longrightarrow> utf8_encode n = [char_of n]"
  by (simp add: utf8_encode_def)

lemma units_to_utf8_control:
  "n < 32 \<Longrightarrow> units_to_utf8 (Esc n # us) = char_of n # units_to_utf8 us"
proof (cases us)
  case Nil
  assume "n < 32"
  then show ?thesis using Nil by (simp add: utf8_encode_def is_high_def is_low_def)
next
  case (Cons u us')
  assume "n < 32"
  then show ?thesis using Cons
    by (cases u) (simp_all add: utf8_encode_def is_high_def is_low_def)
qed

lemma units_to_utf8_escape_units: "units_to_utf8 (escape_units s) = s"
  by (induction s) (simp_all add: units_to_utf8_control)

lemma parse_string_quote_chars:
  "parse_string (quote_chars s @ CHR 0x22 # r) = Some (s, r)"
  by (simp add: parse_string_def scan_string_quote_chars units_to_utf8_escape_units)

lemma insert_index_last:
  "\<forall>k' \<in> set (map fst kvs). \<exists>m. array_index k' = Some m \<and> m \<le> n \<Longrightarrow>
   insert_index n k v kvs = kvs @ [(k, v)]"
  by (induction kvs) auto

lemma key_order_snoc_index:
  "key_order (ks @ [k]) \<Longrightarrow> array_index k = Some n \<Longrightarrow> k' \<in> set ks \<Longrightarrow>
   \<exists>m. array_index k' = Some m \<and> m \<le> n"
proof (induction ks arbitrary: k' rule: key_order.induct)
  case 1
  then show ?case by simp
next
  case (2 a)
  then show ?case by (auto split: option.splits)
next
  case (3 a b ks)
  from "3.prems"(1) have ko: "key_order ((b # ks) @ [k])" by simp
  have hb: "\<exists>m. array_index b = Some m \<and> m \<le> n"
    using "3.IH" [OF ko "3.prems"(2), of b] by simp
  show ?case
  proof (cases "k' = a")
    case True
    with "3.prems"(1) hb show ?thesis by (auto split: option.splits)
  next
    case False
    with "3.prems"(3) have "k' \<in> set (b # ks)" by simp
    then show ?thesis using "3.IH" [OF ko "3.prems"(2)] by blast
  qed
qed

lemma key_order_butlast: "key_order (ks @ [k]) \<Longrightarrow> key_order ks"
  by (induction ks rule: key_order.induct) auto

lemma obj_put_snoc:
  assumes "distinct (map fst (kvs @ [kv]))" and "key_order (map fst (kvs @ [kv]))"
  shows "obj_put kvs kv = kvs @ [kv]"
proof -
  have nin: "fst kv \<notin> fst ` set kvs" using assms(1) by auto
  then have mo: "map_of kvs (fst kv) = None" by (simp add: map_of_eq_None_iff)
  show ?thesis
  proof (cases "array_index (fst kv)")
    case None
    with mo show ?thesis by (simp add: obj_put_def)
  next
    case (Some n)
    have "\<forall>k' \<in> set (map fst kvs). \<exists>m. array_index k' = Some m \<and> m \<le> n"
      using key_order_snoc_index [of "map fst kvs" "fst kv" n] assms(2) Some by auto
    then have "insert_index n (fst kv) (snd kv) kvs = kvs @ [(fst kv, snd kv)]"
      by (rule insert_index_last)
    with mo Some show ?thesis by (simp add: obj_put_def)
  qed
qed

lemma foldl_obj_put:
  "distinct (map fst kvs) \<Longrightarrow> key_order (map fst kvs) \<Longrightarrow> foldl obj_put [] kvs = kvs"
proof (induction kvs rule: rev_induct)
  case Nil
  show ?case by simp
next
  case (snoc kv kvs)
  from snoc.prems have d: "distinct (map fst kvs)" by simp
  from snoc.prems have k: "key_order (map fst kvs)"
    using key_order_butlast [of "map fst kvs" "fst kv"] by simp
  have "foldl obj_put [] (kvs @ [kv]) = obj_put kvs kv"
    using snoc.IH [OF d k] by simp
  also have "\<dots> = kvs @ [kv]"
    using snoc.prems by (rule obj_put_snoc)
  finally show ?case .
qed

lemma skip_ws_nonws: "\<not> is_ws c \<Longrightarrow> skip_ws (c # cs) = c # cs"
  by (simp add: skip_ws_def)

lemma not_ws_chars:
  "\<not> is_ws (CHR ''{'')" "\<not> is_ws (CHR ''['')" "\<not> is_ws (CHR 0x22)" "\<not> is_ws (CHR ''t'')"
  "\<not> is_ws (CHR ''f'')" "\<not> is_ws (CHR ''n'')" "\<not> is_ws (CHR ''}'')" "\<not> is_ws (CHR '']'')"
  "\<not> is_ws (CHR '','')" "\<not> is_ws (CHR '':'')"
  by (simp_all add: is_ws_def)

lemma delimited_chars:
  "delimited (CHR '','' # r)" "delimited (CHR '']'' # r)" "delimited (CHR ''}'' # r)" "delimited []"
  by (simp_all add: delimited_def)

lemma digits_append:
  "delimited r \<Longrightarrow> takeWhile is_digit (cs @ r) = takeWhile is_digit cs"
  "delimited r \<Longrightarrow> dropWhile is_digit (cs @ r) = dropWhile is_digit cs @ r"
  by (induction cs) (auto simp: delimited_def is_digit_def split: list.splits)

lemma scan_int_append:
  "scan_int s = Some (a, b) \<Longrightarrow> delimited r \<Longrightarrow> scan_int (s @ r) = Some (a, b @ r)"
  by (cases s) (auto simp: scan_int_def digits_append split: if_splits)

lemma scan_frac_append:
  "scan_frac s = Some (a, b) \<Longrightarrow> delimited r \<Longrightarrow> scan_frac (s @ r) = Some (a, b @ r)"
  by (cases s; cases r) (auto simp: scan_frac_def digits_append delimited_def split: if_splits)

lemma scan_sign_append:
  "scan_sign s = (a, b) \<Longrightarrow> delimited r \<Longrightarrow> scan_sign (s @ r) = (a, b @ r)"
  by (cases s; cases r) (auto simp: scan_sign_def delimited_def split: if_splits)

lemma scan_exp_append:
  "scan_exp s = Some (a, b) \<Longrightarrow> delimited r \<Longrightarrow> scan_exp (s @ r) = Some (a, b @ r)"
proof (cases s)
  case Nil
  assume "scan_exp s = Some (a, b)" "delimited r"
  with Nil show ?thesis by (cases r) (auto simp: scan_exp_def delimited_def)
next
  case (Cons c cs)
  assume h: "scan_exp s = Some (a, b)" and d: "delimited r"
  show ?thesis
  proof (cases "c = CHR ''e'' \<or> c = CHR ''E''")
    case False
    with h Cons show ?thesis by (auto simp: scan_exp_def)
  next
    case True
    obtain sg r0 where sg: "scan_sign cs = (sg, r0)" by (cases "scan_sign cs")
    from scan_sign_append [OF sg d] have sg': "scan_sign (cs @ r) = (sg, r0 @ r)" .
    from h Cons True sg sg' d show ?thesis
      by (auto simp: scan_exp_def digits_append split: if_splits)
  qed
qed

lemma scan_number_append:
  assumes "scan_number s = Some (t, b)" and "delimited r"
  shows "scan_number (s @ r) = Some (t, b @ r)"
proof -
  obtain sg r0 where sg: "(case s of c # cs \<Rightarrow> if c = CHR ''-'' then ([c], cs) else ([], s) | [] \<Rightarrow> ([], s)) = (sg, r0)"
    by (cases "(case s of c # cs \<Rightarrow> if c = CHR ''-'' then ([c], cs) else ([], s) | [] \<Rightarrow> ([], s))")
  from assms(1) sg obtain ip r1 where ip: "scan_int r0 = Some (ip, r1)"
    by (auto simp: scan_number_def split: option.splits)
  from assms(1) sg ip obtain fp r2 where fp: "scan_frac r1 = Some (fp, r2)"
    by (auto simp: scan_number_def split: option.splits)
  from assms(1) sg ip fp obtain ep r3 where ep: "scan_exp r2 = Some (ep, r3)"
    by (auto simp: scan_number_def split: option.splits)
  from assms(1) sg ip fp ep have res: "t = sg @ ip @ fp @ ep" "b = r3"
    by (auto simp: scan_number_def)
  have s_ne: "s \<noteq> []" using sg ip by (auto simp: scan_int_def)
  have sg': "(case s @ r of c # cs \<Rightarrow> if c = CHR ''-'' then ([c], cs) else ([], s @ r) | [] \<Rightarrow> ([], s @ r)) = (sg, r0 @ r)"
    using sg s_ne by (cases s) (auto split: if_splits)
  show ?thesis
    using sg' scan_int_append [OF ip assms(2)] scan_frac_append [OF fp assms(2)]
      scan_exp_append [OF ep assms(2)] res
    by (simp add: scan_number_def)
qed

lemma number_token_head:
  assumes "number_token t"
  shows "\<exists>c cs. t = c # cs \<and> (c = CHR ''-'' \<or> is_digit c)"
proof (cases t)
  case Nil
  with assms show ?thesis by (simp add: number_token_def scan_number_def scan_int_def)
next
  case (Cons c cs)
  show ?thesis
  proof (cases "c = CHR ''-''")
    case True
    with Cons show ?thesis by simp
  next
    case False
    with assms Cons have "is_digit c"
      by (auto simp: number_token_def scan_number_def scan_int_def is_digit_def
          split: option.splits if_splits)
    with Cons show ?thesis by simp
  qed
qed

lemma parse_number:
  assumes t: "number_token t" and d: "delimited r"
  shows "parse_value e (Suc n) (t @ r) = Some (JNum (string_to_num e t), r)"
proof -
  from number_token_head [OF t] obtain c cs where tc: "t = c # cs"
    and c: "c = CHR ''-'' \<or> is_digit c" by blast
  have sc: "scan_number (c # cs @ r) = Some (t, r)"
    using scan_number_append [of t t "[]" r] t d tc by (simp add: number_token_def)
  have nws: "\<not> is_ws c" using c by (auto simp: is_ws_def is_digit_def)
  have ne: "c \<noteq> CHR ''{''" "c \<noteq> CHR ''[''" "c \<noteq> CHR 0x22" "c \<noteq> CHR ''t''" "c \<noteq> CHR ''f''"
    "c \<noteq> CHR ''n''"
    using c by (auto simp: is_digit_def)
  show ?thesis
    using tc sc nws ne by (simp add: skip_ws_def starts_def)
qed

lemma stringify_head:
  assumes "printable_json e v"
  shows "\<exists>c cs. stringify e v = c # cs \<and> \<not> is_ws c \<and> c \<noteq> CHR ''}'' \<and> c \<noteq> CHR '']''"
proof (cases v)
  case (JNum n)
  with assms have "number_token (num_to_string e n)" and "is_finite n"
    by (simp_all add: reads_back_def)
  with number_token_head [of "num_to_string e n"] JNum show ?thesis
    by (auto simp: is_ws_def is_digit_def)
qed (auto simp: quote_def is_ws_def)

lemma stringify_elems_head:
  "vs \<noteq> [] \<Longrightarrow> printable_elems e vs \<Longrightarrow>
   \<exists>c cs. stringify_elems e vs = c # cs \<and> \<not> is_ws c \<and> c \<noteq> CHR '']''"
proof (cases vs)
  case Nil
  assume "vs \<noteq> []"
  with Nil show ?thesis by simp
next
  case (Cons v ws)
  assume "printable_elems e vs"
  with Cons have "printable_json e v" by simp
  from stringify_head [OF this] obtain c cs where
    "stringify e v = c # cs" "\<not> is_ws c" "c \<noteq> CHR '']''" by blast
  with Cons show ?thesis by (cases ws) auto
qed

lemma stringify_members_head:
  "kvs \<noteq> [] \<Longrightarrow> \<exists>cs. stringify_members e kvs = CHR 0x22 # cs"
proof (cases kvs)
  case Nil
  assume "kvs \<noteq> []"
  with Nil show ?thesis by simp
next
  case (Cons kv ws)
  then show ?thesis by (cases kv; cases ws) (auto simp: quote_def)
qed

lemma parse_scalars:
  "parse_value e (Suc n) (''null'' @ r) = Some (JNull, r)"
  "parse_value e (Suc n) (''true'' @ r) = Some (JBool True, r)"
  "parse_value e (Suc n) (''false'' @ r) = Some (JBool False, r)"
  "parse_value e (Suc n) (quote s @ r) = Some (JStr s, r)"
  by (simp_all add: skip_ws_def is_ws_def starts_def quote_def parse_string_quote_chars)

lemma roundtrip_aux:
  "(printable_json e v \<longrightarrow>
     (\<forall>n r. need v \<le> n \<longrightarrow> delimited r \<longrightarrow> parse_value e n (stringify e v @ r) = Some (v, r)))"
  "(vs \<noteq> [] \<longrightarrow> printable_elems e vs \<longrightarrow>
     (\<forall>n r. need_elems vs \<le> n \<longrightarrow>
        parse_elements e n (stringify_elems e vs @ CHR '']'' # r) = Some (vs, r)))"
  "(kvs \<noteq> [] \<longrightarrow> printable_members e kvs \<longrightarrow>
     (\<forall>n r. need_members kvs \<le> n \<longrightarrow>
        parse_members e n (stringify_members e kvs @ CHR ''}'' # r) = Some (kvs, r)))"
proof (induction e v and e vs and e kvs rule: stringify_stringify_elems_stringify_members.induct)
  case (1 e)
  show ?case
  proof (intro impI allI)
    fix n r
    assume "need JNull \<le> n"
    then obtain m where "n = Suc m" by (cases n) auto
    then show "parse_value e n (stringify e JNull @ r) = Some (JNull, r)"
      using parse_scalars(1) [of e m r] by (simp del: parse_value.simps)
  qed
next
  case (2 e b)
  show ?case
  proof (intro impI allI)
    fix n r
    assume "need (JBool b) \<le> n"
    then obtain m where "n = Suc m" by (cases n) auto
    then show "parse_value e n (stringify e (JBool b) @ r) = Some (JBool b, r)"
      using parse_scalars(2) [of e m r] parse_scalars(3) [of e m r]
      by (simp del: parse_value.simps)
  qed
next
  case (3 e x)
  show ?case
  proof (intro impI allI)
    fix n r
    assume printable: "printable_json e (JNum x)" and nd: "need (JNum x) \<le> n"
      and delim: "delimited r"
    from nd obtain m where n: "n = Suc m" by (cases n) auto
    from printable have finite_x: "is_finite x" and tok: "number_token (num_to_string e x)"
      and same: "string_to_num e (num_to_string e x) = x"
      by (simp_all add: reads_back_def)
    from parse_number [OF tok delim, of e m] same
    have "parse_value e (Suc m) (num_to_string e x @ r) = Some (JNum x, r)" by simp
    then show "parse_value e n (stringify e (JNum x) @ r) = Some (JNum x, r)"
      using n finite_x by (simp del: parse_value.simps)
  qed
next
  case (4 e s)
  show ?case
  proof (intro impI allI)
    fix n r
    assume "need (JStr s) \<le> n"
    then obtain m where "n = Suc m" by (cases n) auto
    then show "parse_value e n (stringify e (JStr s) @ r) = Some (JStr s, r)"
      using parse_scalars(4) [of e m s r] by (simp del: parse_value.simps)
  qed
next
  case (5 e vs)
  show ?case
  proof (intro impI allI)
    fix n r
    assume pl: "printable_json e (JArr vs)" and nd: "need (JArr vs) \<le> n"
    from nd obtain m where n: "n = Suc m" and m: "need_elems vs \<le> m"
      by (cases n) auto
    show "parse_value e n (stringify e (JArr vs) @ r) = Some (JArr vs, r)"
    proof (cases "vs = []")
      case True
      then show ?thesis using n by (simp add: skip_ws_nonws not_ws_chars)
    next
      case False
      from pl have ple: "printable_elems e vs" by simp
      from stringify_elems_head [OF False ple] obtain c cs where
        hd: "stringify_elems e vs = c # cs" "\<not> is_ws c" "c \<noteq> CHR '']''" by blast
      have pe: "parse_elements e m (stringify_elems e vs @ CHR '']'' # r) = Some (vs, r)"
        using "5.IH" False ple m by blast
      show ?thesis
        using n hd pe by (simp add: skip_ws_nonws not_ws_chars)
    qed
  qed
next
  case (6 e kvs)
  show ?case
  proof (intro impI allI)
    fix n r
    assume pl: "printable_json e (JObj kvs)" and nd: "need (JObj kvs) \<le> n"
    from nd obtain m where n: "n = Suc m" and m: "need_members kvs \<le> m"
      by (cases n) auto
    show "parse_value e n (stringify e (JObj kvs) @ r) = Some (JObj kvs, r)"
    proof (cases "kvs = []")
      case True
      then show ?thesis using n by (simp add: skip_ws_nonws not_ws_chars)
    next
      case False
      from pl have plm: "printable_members e kvs" and d: "distinct (map fst kvs)"
        and k: "key_order (map fst kvs)" by simp_all
      from stringify_members_head [OF False, of e] obtain cs where
        hd: "stringify_members e kvs = CHR 0x22 # cs" by blast
      have pm: "parse_members e m (stringify_members e kvs @ CHR ''}'' # r) = Some (kvs, r)"
        using "6.IH" False plm m by blast
      show ?thesis
        using n hd pm foldl_obj_put [OF d k] by (simp add: skip_ws_nonws not_ws_chars)
    qed
  qed
next
  case (7 e)
  show ?case by simp
next
  case (8 e v)
  show ?case
  proof (intro impI allI)
    fix n r
    assume pl: "printable_elems e [v]" and nd: "need_elems [v] \<le> n"
    from nd obtain m where n: "n = Suc m" and m: "need v \<le> m"
      by (cases n) auto
    from pl have "printable_json e v" by simp
    with "8.IH" m delimited_chars(2) [of r]
    have "parse_value e m (stringify e v @ CHR '']'' # r) = Some (v, CHR '']'' # r)"
      by blast
    then show "parse_elements e n (stringify_elems e [v] @ CHR '']'' # r) = Some ([v], r)"
      using n by (simp add: skip_ws_nonws not_ws_chars)
  qed
next
  case (9 e v w vs)
  show ?case
  proof (intro impI allI)
    fix n r
    assume pl: "printable_elems e (v # w # vs)" and nd: "need_elems (v # w # vs) \<le> n"
    from nd obtain m where n: "n = Suc m" and m1: "need v \<le> m" and m2: "need_elems (w # vs) \<le> m"
      by (cases n) auto
    from pl have pv: "printable_json e v" and pr: "printable_elems e (w # vs)" by simp_all
    let ?rest = "stringify_elems e (w # vs) @ CHR '']'' # r"
    have a: "parse_value e m (stringify e v @ CHR '','' # ?rest) = Some (v, CHR '','' # ?rest)"
      using "9.IH"(1) pv m1 delimited_chars(1) [of ?rest] by blast
    have b: "parse_elements e m ?rest = Some (w # vs, r)"
      using "9.IH"(2) pr m2 by blast
    show "parse_elements e n (stringify_elems e (v # w # vs) @ CHR '']'' # r) = Some (v # w # vs, r)"
      using n a b by (simp add: skip_ws_nonws not_ws_chars)
  qed
next
  case (10 e)
  show ?case by simp
next
  case (11 e k v)
  show ?case
  proof (intro impI allI)
    fix n r
    assume pl: "printable_members e [(k, v)]" and nd: "need_members [(k, v)] \<le> n"
    from nd obtain m where n: "n = Suc m" and m: "need v \<le> m"
      by (cases n) auto
    from pl have "printable_json e v" by simp
    with "11.IH" m delimited_chars(3) [of r]
    have "parse_value e m (stringify e v @ CHR ''}'' # r) = Some (v, CHR ''}'' # r)"
      by blast
    then show "parse_members e n (stringify_members e [(k, v)] @ CHR ''}'' # r) = Some ([(k, v)], r)"
      using n
      by (simp add: skip_ws_nonws not_ws_chars quote_def parse_string_quote_chars)
  qed
next
  case (12 e k v kv kvs)
  show ?case
  proof (intro impI allI)
    fix n r
    assume pl: "printable_members e ((k, v) # kv # kvs)" and nd: "need_members ((k, v) # kv # kvs) \<le> n"
    from nd obtain m where n: "n = Suc m" and m1: "need v \<le> m" and m2: "need_members (kv # kvs) \<le> m"
      by (cases n) auto
    from pl have pv: "printable_json e v" and pr: "printable_members e (kv # kvs)" by simp_all
    let ?rest = "stringify_members e (kv # kvs) @ CHR ''}'' # r"
    have a: "parse_value e m (stringify e v @ CHR '','' # ?rest) = Some (v, CHR '','' # ?rest)"
      using "12.IH"(1) pv m1 delimited_chars(1) [of ?rest] by blast
    have b: "parse_members e m ?rest = Some (kv # kvs, r)"
      using "12.IH"(2) pr m2 by blast
    show "parse_members e n (stringify_members e ((k, v) # kv # kvs) @ CHR ''}'' # r)
            = Some ((k, v) # kv # kvs, r)"
      using n a b
      by (simp add: skip_ws_nonws not_ws_chars quote_def parse_string_quote_chars)
  qed
qed

lemma need_le_length:
  "(printable_json e v \<longrightarrow> need v \<le> length (stringify e v))"
  "(vs \<noteq> [] \<longrightarrow> printable_elems e vs \<longrightarrow> need_elems vs \<le> Suc (length (stringify_elems e vs)))"
  "(kvs \<noteq> [] \<longrightarrow> printable_members e kvs \<longrightarrow>
      need_members kvs \<le> Suc (length (stringify_members e kvs)))"
proof (induction e v and e vs and e kvs rule: stringify_stringify_elems_stringify_members.induct)
  case (3 e x)
  show ?case
  proof
    assume "printable_json e (JNum x)"
    then have "number_token (num_to_string e x)" and "is_finite x"
      by (simp_all add: reads_back_def)
    with number_token_head [of "num_to_string e x"] show "need (JNum x) \<le> length (stringify e (JNum x))"
      by auto
  qed
next
  case (5 e vs)
  then show ?case by (cases "vs = []") auto
next
  case (6 e kvs)
  then show ?case by (cases "kvs = []") auto
qed (auto simp: quote_def)

lemma json_parse_stringify:
  assumes "printable_json e v"
  shows "json_parse e (stringify e v) = Some v"
proof -
  have "need v \<le> length (stringify e v)"
    using need_le_length(1) assms by blast
  then have "parse_value e (length (stringify e v)) (stringify e v @ []) = Some (v, [])"
    using roundtrip_aux(1) assms delimited_chars(4) by blast
  then show ?thesis
    by (simp add: json_parse_def skip_ws_def)
qed

text \<open>
  Every value the parser returns lists the keys of its objects in enumeration order, so
  the order asked of a value in the round trip holds of everything that reaches a
  handler through the body parser.
\<close>

lemma ordered_members_iff: "ordered_members kvs \<longleftrightarrow> (\<forall>kv \<in> set kvs. ordered_json (snd kv))"
  by (induction kvs) auto

lemma ordered_elems_iff: "ordered_elems vs \<longleftrightarrow> (\<forall>v \<in> set vs. ordered_json v)"
  by (induction vs) auto

lemma printable_iff:
  "printable_json e v \<longleftrightarrow>
     ordered_json v \<and> list_all is_finite (numbers_of v) \<and> list_all (reads_back e) (numbers_of v)"
  "printable_elems e vs \<longleftrightarrow>
     ordered_elems vs \<and> list_all is_finite (numbers_elems vs)
       \<and> list_all (reads_back e) (numbers_elems vs)"
  "printable_members e kvs \<longleftrightarrow>
     ordered_members kvs \<and> list_all is_finite (numbers_members kvs)
       \<and> list_all (reads_back e) (numbers_members kvs)"
  by (induction e v and e vs and e kvs rule: printable_json_printable_elems_printable_members.induct)
     auto

lemma key_order_snoc_other:
  "key_order ks \<Longrightarrow> array_index k = None \<Longrightarrow> key_order (ks @ [k])"
  by (induction ks rule: key_order.induct) (auto split: option.splits)

lemma set_insert_index: "set (insert_index n k v kvs) = insert (k, v) (set kvs)"
proof (induction kvs)
  case Nil
  show ?case by simp
next
  case (Cons kv kvs)
  obtain k' v' where kv: "kv = (k', v')" by (cases kv)
  show ?case
  proof (cases "array_index k'")
    case None
    with kv show ?thesis by simp
  next
    case (Some m)
    with kv Cons.IH show ?thesis by (cases "m \<le> n") (simp_all add: insert_commute)
  qed
qed

lemma keys_insert_index: "set (map fst (insert_index n k v kvs)) = insert k (set (map fst kvs))"
  by (simp add: set_insert_index)

lemma distinct_insert_index:
  "distinct (map fst kvs) \<Longrightarrow> k \<notin> set (map fst kvs) \<Longrightarrow> distinct (map fst (insert_index n k v kvs))"
proof (induction kvs)
  case Nil
  show ?case by simp
next
  case (Cons kv kvs)
  obtain k' v' where kv: "kv = (k', v')" by (cases kv)
  from Cons.prems have d: "distinct (map fst kvs)" and nk: "k \<notin> set (map fst kvs)"
    and ne: "k \<noteq> k'" and nk': "k' \<notin> set (map fst kvs)" using kv by auto
  have ih: "distinct (map fst (insert_index n k v kvs))" using Cons.IH d nk by simp
  have "k' \<notin> set (map fst (insert_index n k v kvs))"
    unfolding keys_insert_index using ne nk' by simp
  with ih Cons.prems kv show ?case by (auto split: option.splits)
qed

lemma key_order_insert_index:
  "key_order (map fst kvs) \<Longrightarrow> array_index k = Some n \<Longrightarrow> key_order (map fst (insert_index n k v kvs))"
proof (induction kvs)
  case Nil
  show ?case by simp
next
  case (Cons kv kvs)
  obtain k' v' where kv: "kv = (k', v')" by (cases kv)
  from Cons.prems(1) have tail: "key_order (map fst kvs)"
    using kv by (cases kvs) simp_all
  have ih: "key_order (map fst (insert_index n k v kvs))"
    using Cons.IH tail Cons.prems(2) by simp
  show ?case
  proof (cases "array_index k'")
    case None
    with Cons.prems kv show ?thesis by (simp split: option.splits)
  next
    case (Some m)
    show ?thesis
    proof (cases "m \<le> n")
      case False
      with Some Cons.prems kv show ?thesis by (simp split: option.splits)
    next
      case True
      have res: "insert_index n k v (kv # kvs) = (k', v') # insert_index n k v kvs"
        using kv Some True by simp
      show ?thesis
      proof (cases kvs)
        case Nil
        with res Some True Cons.prems(2) show ?thesis by simp
      next
        case (Cons kv2 rest)
        obtain k2 v2 where kv2: "kv2 = (k2, v2)" by (cases kv2)
        from Cons.prems(1) kv Cons kv2 Some
        have step: "(case array_index k2 of Some b \<Rightarrow> m \<le> b | None \<Rightarrow> True)"
          by simp
        show ?thesis
          using res ih Cons kv2 Some True step Cons.prems(2)
          by (auto split: option.splits)
      qed
    qed
  qed
qed

lemma keys_obj_update:
  "map fst (map (\<lambda>p. if fst p = fst kv then kv else p) kvs) = map fst kvs"
  by (induction kvs) auto

lemma obj_put_keys_ordered:
  assumes "distinct (map fst kvs)" and "key_order (map fst kvs)"
  shows "distinct (map fst (obj_put kvs kv)) \<and> key_order (map fst (obj_put kvs kv))"
proof (cases "map_of kvs (fst kv) = None")
  case False
  then have "obj_put kvs kv = map (\<lambda>p. if fst p = fst kv then kv else p) kvs"
    by (simp add: obj_put_def)
  then have "map fst (obj_put kvs kv) = map fst kvs"
    by (simp only: keys_obj_update)
  then show ?thesis using assms by simp
next
  case True
  then have nin: "fst kv \<notin> set (map fst kvs)"
    by (simp add: map_of_eq_None_iff)
  show ?thesis
  proof (cases "array_index (fst kv)")
    case None
    with True nin assms show ?thesis
      by (simp add: obj_put_def key_order_snoc_other)
  next
    case (Some n)
    with True nin assms show ?thesis
      by (simp add: obj_put_def distinct_insert_index key_order_insert_index)
  qed
qed

lemma obj_put_values:
  assumes "\<forall>p \<in> set kvs. ordered_json (snd p)" and "ordered_json (snd kv)"
  shows "\<forall>p \<in> set (obj_put kvs kv). ordered_json (snd p)"
  using assms by (auto simp: obj_put_def set_insert_index split: option.splits)

lemma foldl_obj_put_ordered:
  assumes "distinct (map fst acc)" and "key_order (map fst acc)"
    and "\<forall>p \<in> set acc. ordered_json (snd p)" and "\<forall>p \<in> set kvs. ordered_json (snd p)"
  shows "ordered_json (JObj (foldl obj_put acc kvs))"
  using assms
proof (induction kvs arbitrary: acc)
  case Nil
  then show ?case by (simp add: ordered_members_iff)
next
  case (Cons kv kvs)
  have "distinct (map fst (obj_put acc kv)) \<and> key_order (map fst (obj_put acc kv))"
    using Cons.prems(1,2) by (rule obj_put_keys_ordered)
  moreover have "\<forall>p \<in> set (obj_put acc kv). ordered_json (snd p)"
    using Cons.prems(3,4) by (intro obj_put_values) simp_all
  ultimately show ?case using Cons.IH [of "obj_put acc kv"] Cons.prems(4) by simp
qed


lemma parse_ordered_aux:
  "(\<forall>s v r. parse_value e n s = Some (v, r) \<longrightarrow> ordered_json v)
   \<and> (\<forall>s vs r. parse_elements e n s = Some (vs, r) \<longrightarrow> (\<forall>v \<in> set vs. ordered_json v))
   \<and> (\<forall>s kvs r. parse_members e n s = Some (kvs, r) \<longrightarrow> (\<forall>p \<in> set kvs. ordered_json (snd p)))"
proof (induction n)
  case 0
  show ?case by simp
next
  case (Suc n)
  have v: "\<And>s v r. parse_value e n s = Some (v, r) \<Longrightarrow> ordered_json v"
    and es: "\<And>s vs r. parse_elements e n s = Some (vs, r) \<Longrightarrow> \<forall>v \<in> set vs. ordered_json v"
    and ms: "\<And>s kvs r. parse_members e n s = Some (kvs, r) \<Longrightarrow> \<forall>p \<in> set kvs. ordered_json (snd p)"
    using Suc.IH by blast+
  have obj: "\<And>kvs. \<forall>p \<in> set kvs. ordered_json (snd p) \<Longrightarrow> ordered_json (JObj (foldl obj_put [] kvs))"
    by (rule foldl_obj_put_ordered) simp_all
  have a: "\<And>s v r. parse_value e (Suc n) s = Some (v, r) \<Longrightarrow> ordered_json v"
    using es ms obj
    by (auto simp: ordered_elems_iff split: list.splits option.splits if_splits prod.splits)
  have b: "\<And>s vs r. parse_elements e (Suc n) s = Some (vs, r) \<Longrightarrow> \<forall>v \<in> set vs. ordered_json v"
    using v es
    by (auto split: list.splits option.splits if_splits prod.splits)
  have c: "\<And>s kvs r. parse_members e (Suc n) s = Some (kvs, r) \<Longrightarrow> \<forall>p \<in> set kvs. ordered_json (snd p)"
    using v ms
    by (fastforce split: list.splits option.splits if_splits prod.splits)
  from a b c show ?case by blast
qed

lemma json_parse_ordered: "json_parse e s = Some v \<Longrightarrow> ordered_json v"
proof -
  assume "json_parse e s = Some v"
  then obtain r where "parse_value e (length s) s = Some (v, r)"
    by (auto simp: json_parse_def split: option.splits if_splits)
  with parse_ordered_aux [of e "length s"] show ?thesis by blast
qed

section \<open>ORDER BY\<close>

lemma sql_key_inj: "sql_key a = sql_key b \<Longrightarrow> a = b"
  by (cases a; cases b) (simp_all add: sql_key_def)

lemma sql_compare_EQ: "sql_compare a b = EQ \<longleftrightarrow> a = b"
  using sql_key_inj by (auto simp: sql_compare_def)

lemma sql_compare_LT: "sql_compare a b = LT \<longleftrightarrow> sql_key a < sql_key b"
  by (auto simp: sql_compare_def)

lemma sql_compare_GT: "sql_compare a b = GT \<longleftrightarrow> sql_key b < sql_key a"
  by (auto simp: sql_compare_def)

lemma sql_compare_flip:
  "sql_compare a b = GT \<longleftrightarrow> sql_compare b a = LT"
  by (simp add: sql_compare_GT sql_compare_LT)

lemma row_compare_flip:
  "row_compare ts a b = GT \<longleftrightarrow> row_compare ts b a = LT"
proof (induction ts)
  case Nil
  show ?case by simp
next
  case (Cons t ts)
  obtain f dir where t: "t = (f, dir)" by (cases t)
  consider "sql_key (f a) < sql_key (f b)" | "f a = f b" | "sql_key (f b) < sql_key (f a)"
    using sql_key_inj [of "f a" "f b"] by fastforce
  then show ?case
  proof cases
    case 1
    then have "sql_compare (f a) (f b) = LT" "sql_compare (f b) (f a) = GT"
      by (simp_all add: sql_compare_LT sql_compare_GT)
    then show ?thesis using t by (cases dir) simp_all
  next
    case 2
    then have "sql_compare (f a) (f b) = EQ" "sql_compare (f b) (f a) = EQ"
      by (simp_all add: sql_compare_EQ)
    then show ?thesis using t Cons.IH by simp
  next
    case 3
    then have "sql_compare (f a) (f b) = GT" "sql_compare (f b) (f a) = LT"
      by (simp_all add: sql_compare_LT sql_compare_GT)
    then show ?thesis using t by (cases dir) simp_all
  qed
qed

lemma row_le_total: "\<not> row_le ts a b \<Longrightarrow> row_le ts b a"
  using row_compare_flip [of ts a b] by (simp add: row_le_def)

lemma sql_compare_trans:
  "sql_compare a b = EQ \<Longrightarrow> sql_compare b c = r \<Longrightarrow> sql_compare a c = r"
  "sql_compare a b = r \<Longrightarrow> sql_compare b c = EQ \<Longrightarrow> sql_compare a c = r"
  "sql_compare a b = LT \<Longrightarrow> sql_compare b c = LT \<Longrightarrow> sql_compare a c = LT"
  "sql_compare a b = GT \<Longrightarrow> sql_compare b c = GT \<Longrightarrow> sql_compare a c = GT"
proof -
  show "sql_compare a b = EQ \<Longrightarrow> sql_compare b c = r \<Longrightarrow> sql_compare a c = r"
    by (simp add: sql_compare_EQ)
  show "sql_compare a b = r \<Longrightarrow> sql_compare b c = EQ \<Longrightarrow> sql_compare a c = r"
    by (simp add: sql_compare_EQ)
  show "sql_compare a b = LT \<Longrightarrow> sql_compare b c = LT \<Longrightarrow> sql_compare a c = LT"
    unfolding sql_compare_LT by (rule less_trans)
  show "sql_compare a b = GT \<Longrightarrow> sql_compare b c = GT \<Longrightarrow> sql_compare a c = GT"
    unfolding sql_compare_GT by (rule less_trans [rotated])
qed

lemma row_compare_trans:
  "(row_compare ts a b = EQ \<longrightarrow> row_compare ts b c = EQ \<longrightarrow> row_compare ts a c = EQ)
   \<and> (row_compare ts a b = EQ \<longrightarrow> row_compare ts b c = LT \<longrightarrow> row_compare ts a c = LT)
   \<and> (row_compare ts a b = LT \<longrightarrow> row_compare ts b c = EQ \<longrightarrow> row_compare ts a c = LT)
   \<and> (row_compare ts a b = LT \<longrightarrow> row_compare ts b c = LT \<longrightarrow> row_compare ts a c = LT)"
proof (induction ts)
  case Nil
  show ?case by simp
next
  case (Cons t ts)
  obtain f dir where t: "t = (f, dir)" by (cases t)
  show ?case
  proof (cases "sql_compare (f a) (f b)")
    case LT
    note ab = this
    show ?thesis
    proof (cases "sql_compare (f b) (f c)")
      case LT
      with ab have "sql_compare (f a) (f c) = LT" by (rule sql_compare_trans(3))
      with ab LT t show ?thesis by (cases dir) simp_all
    next
      case EQ
      with ab have "sql_compare (f a) (f c) = LT" by (rule sql_compare_trans(2))
      with ab EQ t show ?thesis by (cases dir) simp_all
    next
      case GT
      with ab t show ?thesis by (cases dir) simp_all
    qed
  next
    case EQ
    note ab = this
    show ?thesis
    proof (cases "sql_compare (f b) (f c)")
      case LT
      with ab have "sql_compare (f a) (f c) = LT" by (rule sql_compare_trans(1))
      with ab LT t show ?thesis by (cases dir) simp_all
    next
      case EQ
      with ab have "sql_compare (f a) (f c) = EQ" by (rule sql_compare_trans(1))
      with ab EQ t Cons.IH show ?thesis by simp
    next
      case GT
      with ab have "sql_compare (f a) (f c) = GT" by (rule sql_compare_trans(1))
      with ab GT t show ?thesis by (cases dir) simp_all
    qed
  next
    case GT
    note ab = this
    show ?thesis
    proof (cases "sql_compare (f b) (f c)")
      case LT
      with ab t show ?thesis by (cases dir) simp_all
    next
      case EQ
      with ab have "sql_compare (f a) (f c) = GT" by (rule sql_compare_trans(2))
      with ab EQ t show ?thesis by (cases dir) simp_all
    next
      case GT
      with ab have "sql_compare (f a) (f c) = GT" by (rule sql_compare_trans(4))
      with ab GT t show ?thesis by (cases dir) simp_all
    qed
  qed
qed

lemma row_le_trans: "row_le ts a b \<Longrightarrow> row_le ts b c \<Longrightarrow> row_le ts a c"
  using row_compare_trans [of ts a b c]
  by (cases "row_compare ts a b"; cases "row_compare ts b c") (simp_all add: row_le_def)

lemma set_insert_row: "set (insert_row ts x ys) = insert x (set ys)"
  by (induction ys) auto

lemma mset_insert_row: "mset (insert_row ts x ys) = add_mset x (mset ys)"
  by (induction ys) auto

lemma sorted_insert_row:
  "sorted_wrt (row_le ts) ys \<Longrightarrow> sorted_wrt (row_le ts) (insert_row ts x ys)"
proof (induction ys)
  case Nil
  show ?case by simp
next
  case (Cons y ys)
  from Cons.prems have sorted_ys: "sorted_wrt (row_le ts) ys"
    and all: "\<And>z. z \<in> set ys \<Longrightarrow> row_le ts y z" by simp_all
  show ?case
  proof (cases "row_compare ts x y = GT")
    case True
    then have yx: "row_le ts y x" using row_le_total [of ts x y] by (simp add: row_le_def)
    have ins: "insert_row ts x (y # ys) = y # insert_row ts x ys" using True by simp
    have "sorted_wrt (row_le ts) (insert_row ts x ys)" using Cons.IH sorted_ys .
    moreover have "\<And>z. z \<in> set (insert_row ts x ys) \<Longrightarrow> row_le ts y z"
      using yx all by (auto simp only: set_insert_row insert_iff)
    ultimately show ?thesis unfolding ins by (simp only: sorted_wrt.simps) blast
  next
    case False
    then have xy: "row_le ts x y" by (simp add: row_le_def)
    have ins: "insert_row ts x (y # ys) = x # y # ys" using False by simp
    have "\<And>z. z \<in> set (y # ys) \<Longrightarrow> row_le ts x z"
    proof -
      fix z assume "z \<in> set (y # ys)"
      then consider "z = y" | "z \<in> set ys" by auto
      then show "row_le ts x z"
      proof cases
        case 1
        with xy show ?thesis by simp
      next
        case 2
        then have "row_le ts y z" by (rule all)
        with xy show ?thesis by (rule row_le_trans)
      qed
    qed
    with Cons.prems show ?thesis unfolding ins by (simp only: sorted_wrt.simps) blast
  qed
qed

lemma sorted_order_by: "sorted_wrt (row_le ts) (order_by ts rows)"
  by (induction rows) (simp_all add: order_by_def sorted_insert_row)

lemma mset_order_by: "mset (order_by ts rows) = mset rows"
  by (induction rows) (simp_all add: order_by_def mset_insert_row)

lemma sql_compare_ids:
  "sql_compare (SqlNum (of_int i)) (SqlNum (of_int j)) = (if i < j then LT else if i = j then EQ else GT)"
  by (auto simp: sql_compare_def sql_key_def)

lemma skills_order_spec:
  "row_le [(s_sort, ASC), (\<lambda>r. SqlNum (of_int (s_id r)), ASC)] a b = skills_listing_order a b"
  using sql_compare_EQ [of "s_sort a" "s_sort b"]
  by (cases "sql_compare (s_sort a) (s_sort b)")
     (auto simp: row_le_def skills_listing_order_def sql_less_def sql_compare_ids)

lemma projects_order_spec:
  "row_le [(p_featured, DESC), (p_sort, ASC), (\<lambda>r. SqlNum (of_int (p_id r)), DESC)] a b
     = projects_listing_order a b"
  using sql_compare_EQ [of "p_featured a" "p_featured b"] sql_compare_EQ [of "p_sort a" "p_sort b"]
    sql_compare_flip [of "p_featured a" "p_featured b"] sql_compare_EQ [of "p_featured b" "p_featured a"]
    sql_compare_flip [of "p_featured b" "p_featured a"]
  by (cases "sql_compare (p_featured a) (p_featured b)"; cases "sql_compare (p_sort a) (p_sort b)")
     (auto simp: row_le_def projects_listing_order_def sql_less_def sql_compare_ids)

section \<open>Numbers read from the database\<close>

text \<open>
  An integer of at most 53 bits, and \<^verbatim>\<open>2^53\<close> itself, reaches JavaScript exactly;
  the first integer that does not is \<^verbatim>\<open>2^53 + 1\<close>.
\<close>

lemma bit_length_numeral:
  "bit_length 0 = 0"
  "bit_length 1 = 1"
  "bit_length (Suc 0) = 1"
  "bit_length (numeral Num.One) = 1"
  "bit_length (numeral (Num.Bit0 n)) = 1 + bit_length (numeral n)"
  "bit_length (numeral (Num.Bit1 n)) = 1 + bit_length (numeral n)"
proof -
  show z: "bit_length 0 = 0" by (simp add: bit_length.simps)
  show o: "bit_length 1 = 1" by (subst bit_length.simps) (simp add: z)
  then show "bit_length (Suc 0) = 1" by simp
  from o show "bit_length (numeral Num.One) = 1" by simp
  show "bit_length (numeral (Num.Bit0 n)) = 1 + bit_length (numeral n)"
    by (subst bit_length.simps) simp
  show "bit_length (numeral (Num.Bit1 n)) = 1 + bit_length (numeral n)"
    by (subst bit_length.simps) simp
qed

lemma bit_length_less: "n < 2 ^ k \<Longrightarrow> bit_length n \<le> k"
proof (induction k arbitrary: n)
  case 0
  then show ?case by (simp add: bit_length.simps)
next
  case (Suc k)
  show ?case
  proof (cases "n = 0")
    case True
    then show ?thesis by (simp add: bit_length.simps)
  next
    case False
    from Suc.prems have "n div 2 < 2 ^ k" by simp
    then have "bit_length (n div 2) \<le> k" by (rule Suc.IH)
    with False show ?thesis by (subst bit_length.simps) simp
  qed
qed

lemma int_to_double_exact: "\<bar>i\<bar> \<le> 2 ^ 53 \<Longrightarrow> int_to_double i = of_int i"
proof -
  assume a: "\<bar>i\<bar> \<le> 2 ^ 53"
  have s: "sgn i * \<bar>i\<bar> = i" by (simp add: sgn_if)
  show ?thesis
  proof (cases "\<bar>i\<bar> = 2 ^ 53")
    case True
    then have n: "nat \<bar>i\<bar> = 9007199254740992" by simp
    have "int_to_double i = of_int (sgn i * 9007199254740992)"
      unfolding int_to_double_def n by (simp add: bit_length_numeral Let_def)
    with True s show ?thesis by simp
  next
    case False
    with a have "nat \<bar>i\<bar> < 2 ^ 53" by (simp add: nat_less_iff)
    then have "bit_length (nat \<bar>i\<bar>) \<le> 53" by (rule bit_length_less)
    then have "int_to_double i = of_int (sgn i * int (nat \<bar>i\<bar>))"
      by (simp add: int_to_double_def Let_def)
    with s show ?thesis by simp
  qed
qed

lemma read_number_exact: "\<bar>q\<bar> \<le> 2 ^ 53 \<Longrightarrow> read_number q = q"
proof (cases "of_int \<lfloor>q\<rfloor> = q")
  case False
  then show ?thesis by (simp add: read_number_def)
next
  case True
  assume b: "\<bar>q\<bar> \<le> 2 ^ 53"
  have "\<bar>(of_int \<lfloor>q\<rfloor> :: rat)\<bar> \<le> 2 ^ 53" unfolding True by (rule b)
  then have "(of_int \<bar>\<lfloor>q\<rfloor>\<bar> :: rat) \<le> of_int (2 ^ 53)" by simp
  then have "\<bar>\<lfloor>q\<rfloor>\<bar> \<le> 2 ^ 53" by (simp only: of_int_le_iff)
  then have "int_to_double \<lfloor>q\<rfloor> = of_int \<lfloor>q\<rfloor>" by (rule int_to_double_exact)
  then have "int_to_double \<lfloor>q\<rfloor> = q" by (simp only: True)
  moreover have "read_number q = int_to_double \<lfloor>q\<rfloor>"
    by (simp only: read_number_def True simp_thms if_True)
  ultimately show ?thesis by simp
qed

lemma int_to_double_rounds:
  "int_to_double 9007199254740993 = 9007199254740992"
  "int_to_double 9007199254740995 = 9007199254740996"
  "int_to_double (- 9007199254740993) = - 9007199254740992"
  by (simp_all add: int_to_double_def bit_length_numeral Let_def)

lemma bind_sql_to_js: "exact_value v \<Longrightarrow> bind_value (Some (sql_to_js v)) = Inr v"
  by (cases v) (simp_all add: exact_value_def sql_to_js_def bind_value_def bind_number_def
      read_number_exact)

lemma bind_js_int: "\<bar>i\<bar> \<le> 2 ^ 53 \<Longrightarrow> bind_value (Some (js_int i)) = Inr (SqlNum (of_int i))"
  by (simp add: js_int_def int_number_def bind_value_def bind_number_def int_to_double_exact)

lemma sql_less_ids: "sql_less (SqlNum (of_int i)) (SqlNum (of_int j)) \<longleftrightarrow> i < j"
  by (simp add: sql_less_def sql_compare_ids)

lemma shown_skill:
  assumes "exact_skill r"
  shows "shown_value (skill_json r) ''sort'' = s_sort r"
    and "shown_value (skill_json r) ''id'' = SqlNum (of_int (s_id r))"
  using assms
  by (simp_all add: exact_skill_def shown_value_def field_def skill_json_def bind_sql_to_js
      bind_js_int)

lemma shown_project:
  assumes "exact_project r"
  shows "shown_value (expanded e r) ''featured'' = p_featured r"
    and "shown_value (expanded e r) ''sort'' = p_sort r"
    and "shown_value (expanded e r) ''id'' = SqlNum (of_int (p_id r))"
  using assms
  by (simp_all add: exact_project_def shown_value_def field_def expanded_def project_columns_def
      bind_sql_to_js bind_js_int)

lemma skills_reply_order_exact:
  "exact_skill a \<Longrightarrow> exact_skill b \<Longrightarrow>
   skills_reply_order (skill_json a) (skill_json b) = skills_listing_order a b"
  by (auto simp: skills_reply_order_def skills_listing_order_def shown_skill sql_less_ids)

lemma projects_reply_order_exact:
  "exact_project a \<Longrightarrow> exact_project b \<Longrightarrow>
   projects_reply_order (expanded e a) (expanded e b) = projects_listing_order a b"
  by (auto simp: projects_reply_order_def projects_listing_order_def shown_project sql_less_ids)

lemma sorted_reply:
  assumes "sorted_wrt P rows" and "\<And>a b. a \<in> set rows \<Longrightarrow> b \<in> set rows \<Longrightarrow> Q (f a) (f b) = P a b"
  shows "sorted_wrt Q (map f rows)"
proof -
  have "sorted_wrt (\<lambda>a b. Q (f a) (f b)) rows"
    using assms(1) by (rule sorted_wrt_mono_rel [rotated]) (simp add: assms(2))
  then show ?thesis by (simp add: sorted_wrt_map)
qed

section \<open>Facts about the handlers\<close>

lemma content_single:
  assumes "map c_id (content d) = [1]"
  obtains r where "content d = [r]" and "c_id r = 1"
  using assms by (cases "content d") auto

lemma audit_content: "content (audit e actor action entity entity_id meta d) = content d"
  by (simp add: audit_def)

lemma content_ids_update:
  "map c_id (map (\<lambda>r. if c_id r = 1 then r\<lparr> c_hero_headline := h, c_hero_subtitle := s,
                                                c_updated_at := t \<rparr> else r) rows) = map c_id rows"
  by (induction rows) simp_all

lemma put_admin_content_ids:
  "map c_id (content (snd (put_admin_content e body d u))) = map c_id (content d)"
  by (simp add: put_admin_content_def Let_def audit_content content_ids_update
      split: sum.splits)

lemma post_admin_skills_content: "content (snd (post_admin_skills e body d u)) = content d"
  by (simp add: post_admin_skills_def Let_def audit_content split: sum.splits)

lemma put_admin_skill_content: "content (snd (put_admin_skill e i body d u)) = content d"
  by (simp add: put_admin_skill_def Let_def audit_content split: sum.splits)

lemma delete_admin_skill_content: "content (snd (delete_admin_skill e i d u)) = content d"
  by (simp add: delete_admin_skill_def Let_def audit_content split: sum.splits)

lemma post_admin_projects_content: "content (snd (post_admin_projects e body d u)) = content d"
  by (simp add: post_admin_projects_def Let_def audit_content split: sum.splits)

lemma put_admin_project_content: "content (snd (put_admin_project e i body d u)) = content d"
  by (simp add: put_admin_project_def Let_def audit_content split: sum.splits)

lemma delete_admin_project_content: "content (snd (delete_admin_project e i d u)) = content d"
  by (simp add: delete_admin_project_def Let_def audit_content split: sum.splits)

lemma login_content: "content (fst (snd (login e body d sess))) = content d"
  by (simp add: login_def Let_def audit_content split: sum.splits option.splits json.splits)

lemma handle_content_ids:
  "map c_id (content (fst (snd (handle e req d sess)))) = map c_id (content d)"
proof (cases sess)
  case None
  then show ?thesis
    by (cases req) (simp_all add: requireAuth_def login_content)
next
  case (Some u)
  then show ?thesis
    by (cases req)
       (simp_all add: requireAuth_def keep_session_def login_content logout_def audit_content
          put_admin_content_ids post_admin_skills_content put_admin_skill_content
          delete_admin_skill_content post_admin_projects_content put_admin_project_content
          delete_admin_project_content)
qed

lemma map_rows_total:
  "(\<And>r. r \<in> set rows \<Longrightarrow> f r = Inr (g r)) \<Longrightarrow> map_rows f rows = Inr (map g rows)"
  by (induction rows) simp_all

lemma set_order_by: "set (order_by ts rows) = set rows"
  using mset_order_by [of ts rows] by (metis set_mset_mset)

lemma expand_links_readable:
  "links_readable e p \<Longrightarrow> expand_links e p = Inr (expanded e p)"
  by (auto simp: links_readable_def expand_links_def expanded_def)

lemma expand_links_unreadable:
  "\<not> links_readable e p \<Longrightarrow> expand_links e p = Inl SyntaxError"
  by (simp add: links_readable_def expand_links_def)

lemma map_rows_expand:
  "map_rows (expand_links e) rows =
     (if list_all (links_readable e) rows then Inr (map (expanded e) rows) else Inl SyntaxError)"
proof (induction rows)
  case Nil
  show ?case by simp
next
  case (Cons p rows)
  show ?case
  proof (cases "links_readable e p")
    case True
    then show ?thesis using Cons.IH by (simp add: expand_links_readable)
  next
    case False
    then show ?thesis by (simp add: expand_links_unreadable)
  qed
qed

lemma expanded_fields:
  "field (Some (expanded e p)) ''id'' = Some (js_int (p_id p))"
  "field (Some (expanded e p)) ''links'' =
     Some (the (json_parse e (if p_links_json p = [] then ''[]'' else p_links_json p)))"
  by (simp_all add: expanded_def field_def project_columns_def)

lemma stringify_array_nonempty: "stringify e (JArr ls) \<noteq> []"
  by simp

lemma stack_text_ok:
  assumes "stack = None \<or> (\<exists>x. stack = Some (JStr x))"
  shows "\<exists>st. stack_text e (with_default stack (JStr [])) = Inr st"
  using assms by (auto simp: stack_text_def with_default_def truthy_def)

lemma bind_project_args:
  assumes "sort_field = None \<or> (\<exists>q. sort_field = Some (JNum (Fin q)))"
  shows "\<exists>q. bind_args 6 [Some (JStr t), Some (JStr s), Some (JStr st), Some (JStr lt),
                Some (featured_flag featured), with_default sort_field (JNum (Fin 0))]
             = Inr [SqlText t, SqlText s, SqlText st, SqlText lt,
                    SqlNum (if truthy featured then 1 else 0), SqlNum q]"
  using assms
  by (auto simp: bind_args_def bind_value_def bind_number_def featured_flag_def with_default_def)

lemma post_admin_projects_ok:
  assumes t: "field body ''title'' = Some (JStr t)" and tn: "t \<noteq> []"
    and s: "field body ''summary'' = Some (JStr s)" and sn: "s \<noteq> []"
    and st: "field body ''stack'' = None \<or> (\<exists>x. field body ''stack'' = Some (JStr x))"
    and so: "field body ''sort'' = None \<or> (\<exists>q. field body ''sort'' = Some (JNum (Fin q)))"
  shows "\<exists>row. post_admin_projects e body d u =
      (Json 200 (ok_id_body (next_rowid (map p_id (projects d)))),
       audit e (su_username u) ''create'' ''project''
         (Some (int_number (next_rowid (map p_id (projects d)))))
         (js_object [(''title'', Some (JStr t))])
         (d\<lparr> projects := projects d @ [row] \<rparr>))
      \<and> p_id row = next_rowid (map p_id (projects d))
      \<and> p_links_json row = links_text e (with_default (field body ''links'') (JArr []))"
proof -
  let ?links = "links_text e (with_default (field body ''links'') (JArr []))"
  let ?featured = "with_default (field body ''featured'') (JNum (Fin 0))"
  let ?n = "next_rowid (map p_id (projects d))"
  from stack_text_ok [OF st, of e] obtain stx where
    stx: "stack_text e (with_default (field body ''stack'') (JStr [])) = Inr stx" by blast
  from bind_project_args [OF so] obtain q where
    q: "bind_args 6 [Some (JStr (js_trim t)), Some (JStr (js_trim s)), Some (JStr stx),
                Some (JStr ?links), Some (featured_flag ?featured),
                with_default (field body ''sort'') (JNum (Fin 0))]
             = Inr [SqlText (js_trim t), SqlText (js_trim s), SqlText stx, SqlText ?links,
                    SqlNum (if truthy ?featured then 1 else 0), SqlNum q]" by blast
  have tt: "truthy (Some (JStr t))" "truthy (Some (JStr s))"
    using tn sn by (simp_all add: truthy_def)
  let ?row = "\<lparr> p_id = ?n, p_title = js_trim t, p_summary = js_trim s, p_stack = stx,
     p_links_json = ?links, p_featured = SqlNum (if truthy ?featured then 1 else 0),
     p_sort = SqlNum q, p_created_at = now e, p_updated_at = now e \<rparr>"
  have "post_admin_projects e body d u =
      (Json 200 (ok_id_body ?n),
       audit e (su_username u) ''create'' ''project'' (Some (int_number ?n))
         (js_object [(''title'', Some (JStr t))])
         (d\<lparr> projects := projects d @ [?row] \<rparr>))"
    using t s tt stx q
    by (simp add: post_admin_projects_def Let_def trim_method_def store_integer_def)
  moreover have "p_id ?row = ?n" "p_links_json ?row = ?links" by simp_all
  ultimately show ?thesis by blast
qed

text \<open>
  Creating a project and listing afterwards: the new row is listed with the value that
  the stored text of its links is read as.
\<close>

lemma create_then_list:
  assumes t: "field body ''title'' = Some (JStr t)" and tn: "t \<noteq> []"
    and s: "field body ''summary'' = Some (JStr s)" and sn: "s \<noteq> []"
    and st: "field body ''stack'' = None \<or> (\<exists>x. field body ''stack'' = Some (JStr x))"
    and so: "field body ''sort'' = None \<or> (\<exists>q. field body ''sort'' = Some (JNum (Fin q)))"
    and l: "field body ''links'' = Some (JArr ls)"
    and parsed: "json_parse e (stringify e (JArr ls)) = Some v"
    and rd: "\<forall>p \<in> set (projects d). links_readable e p"
  shows "\<exists>d' listed.
           handle e (PostAdminProjects body) d (Some u) =
             (Json 200 (ok_id_body (next_rowid (map p_id (projects d)))), d', Some u)
         \<and> handle e GetAdminProjects d' (Some u) =
             (Json 200 (JObj [(''projects'', JArr listed)]), d', Some u)
         \<and> (\<exists>row \<in> set listed.
               field (Some row) ''id'' = Some (js_int (next_rowid (map p_id (projects d))))
               \<and> field (Some row) ''links'' = Some v)"
proof -
  let ?n = "next_rowid (map p_id (projects d))"
  let ?pt = "[(p_featured, DESC), (p_sort, ASC), (\<lambda>r. SqlNum (of_int (p_id r)), DESC)]"
  from post_admin_projects_ok [OF t tn s sn st so, of e d u] obtain row d' where
    post: "post_admin_projects e body d u = (Json 200 (ok_id_body ?n), d')"
    and d': "d' = audit e (su_username u) ''create'' ''project'' (Some (int_number ?n))
                   (js_object [(''title'', Some (JStr t))]) (d\<lparr> projects := projects d @ [row] \<rparr>)"
    and rid: "p_id row = ?n"
    and rlinks: "p_links_json row = links_text e (with_default (field body ''links'') (JArr []))"
    by blast
  have stored: "p_links_json row = stringify e (JArr ls)"
    using rlinks l by (simp add: links_text_def with_default_def)
  have parsed': "json_parse e (p_links_json row) = Some v"
    unfolding stored by (rule parsed)
  have nonempty: "p_links_json row \<noteq> []"
    unfolding stored by simp
  have row_ok: "links_readable e row"
    using parsed' nonempty by (simp add: links_readable_def)
  have projects': "projects d' = projects d @ [row]"
    by (simp add: d' audit_def)
  have all_ok: "\<And>p. p \<in> set (order_by ?pt (projects d')) \<Longrightarrow> expand_links e p = Inr (expanded e p)"
    using rd row_ok by (auto simp: set_order_by projects' intro: expand_links_readable)
  have listing: "map_rows (expand_links e) (order_by ?pt (projects d'))
      = Inr (map (expanded e) (order_by ?pt (projects d')))"
    using all_ok by (rule map_rows_total)
  have a: "handle e (PostAdminProjects body) d (Some u) = (Json 200 (ok_id_body ?n), d', Some u)"
    using post by (simp add: requireAuth_def keep_session_def)
  have b: "handle e GetAdminProjects d' (Some u) =
      (Json 200 (JObj [(''projects'', JArr (map (expanded e) (order_by ?pt (projects d'))))]), d', Some u)"
    using listing by (simp add: requireAuth_def get_admin_projects_def)
  have member: "expanded e row \<in> set (map (expanded e) (order_by ?pt (projects d')))"
    by (simp add: set_order_by projects')
  have fields: "field (Some (expanded e row)) ''id'' = Some (js_int ?n)"
    "field (Some (expanded e row)) ''links'' = Some v"
    using parsed' nonempty rid by (simp_all add: expanded_fields)
  from a b member fields show ?thesis by blast
qed

lemma skill_percent_rejected:
  assumes "to_number e (field body ''percent'') = Inr pct" and "percent_invalid pct"
  shows "\<exists>msg. handle e (PostAdminSkills body) d (Some u) = (Json 400 (error_body msg), d, Some u)"
    and "\<exists>msg. handle e (PutAdminSkill i body) d (Some u) = (Json 400 (error_body msg), d, Some u)"
  using assms
  by (auto simp: requireAuth_def keep_session_def post_admin_skills_def put_admin_skill_def Let_def)

lemma ex_projects_listing:
  "handle example_env GetAdminProjects example_db (Some example_user) =
     (Json 200 (JObj [(''projects'',
        JArr [JObj [(''id'', js_int 2), (''title'', JStr ''Shop''), (''summary'', JStr ''A shop''),
                    (''stack'', JStr ''Python''), (''links_json'', JStr ''[]''),
                    (''featured'', JNum (Fin 1)), (''sort'', JNum (Fin 3)),
                    (''updated_at'', JStr ''2024-01-03 00:00:00''), (''links'', JArr [])],
              JObj [(''id'', js_int 1), (''title'', JStr ''Blog''), (''summary'', JStr ''A blog''),
                    (''stack'', JStr ''JS''), (''links_json'', JStr ''[]''),
                    (''featured'', JNum (Fin 0)), (''sort'', JNum (Fin 0)),
                    (''updated_at'', JStr ''2024-01-02 00:00:00''), (''links'', JArr [])]])]),
      example_db, Some example_user)"
  by (simp add: requireAuth_def get_admin_projects_def example_db_def example_user_def
      order_by_def sql_compare_def sql_key_def expand_links_def project_columns_def
      json_parse_def skip_ws_def is_ws_def sql_to_js_def read_number_exact)

lemma ex_skills_listing:
  "handle example_env GetAdminSkills example_db (Some example_user) =
     (Json 200 (JObj [(''skills'',
        JArr [JObj [(''id'', js_int 2), (''label'', JStr ''JS''), (''percent'', JNum (Fin 90)),
                    (''sort'', JNum (Fin 1))],
              JObj [(''id'', js_int 3), (''label'', JStr ''Py''), (''percent'', JNum (Fin 70)),
                    (''sort'', JNum (Fin 1))],
              JObj [(''id'', js_int 1), (''label'', JStr ''Go''), (''percent'', JNum (Fin 80)),
                    (''sort'', JNum (Fin 2))]])]),
      example_db, Some example_user)"
  by (simp add: requireAuth_def get_admin_skills_def example_db_def example_user_def
      order_by_def sql_compare_def sql_key_def skill_json_def sql_to_js_def read_number_exact)

lemma drop_sort_skill: "drop_field ''sort'' (skill_json r) = skill_public_json r"
  by (simp add: drop_field_def skill_json_def skill_public_json_def)

text \<open>
  A login with the right password on the example database: the session gets the user,
  and one audit entry is written.
\<close>

lemma ex_login:
  "handle example_env
     (PostLogin (Some (JObj [(''username'', JStr ''admin''), (''password'', JStr ''secret'')])))
     example_db None =
     (Json 200 (JObj [(''ok'', JBool True), (''user'', user_json example_user)]),
      audit example_env ''admin'' ''login'' ''auth'' None (JObj []) example_db,
      Some example_user)"
  by (simp add: login_def Let_def field_def bind_args_def bind_value_def user_matches_def
      example_db_def example_env_def example_user_def)

text \<open>
  Creating a skill on the example database: the label is stored trimmed, the sort
  defaults to 0, and the new row gets the next id.
\<close>

lemma ex_create_skill:
  "fst (handle example_env
     (PostAdminSkills (Some (JObj [(''label'', JStr '' Rust ''), (''percent'', JNum (Fin 55))])))
     example_db (Some example_user)) = Json 200 (ok_id_body 4)
   \<and> skills (fst (snd (handle example_env
     (PostAdminSkills (Some (JObj [(''label'', JStr '' Rust ''), (''percent'', JNum (Fin 55))])))
     example_db (Some example_user)))) =
     skills example_db @ [\<lparr> s_id = 4, s_label = ''Rust'', s_percent = SqlNum 55, s_sort = SqlNum 0 \<rparr>]
   \<and> map a_meta_json (audit_log (fst (snd (handle example_env
     (PostAdminSkills (Some (JObj [(''label'', JStr '' Rust ''), (''percent'', JNum (Fin 55))])))
     example_db (Some example_user))))) =
     [''{'' @ quote ''label'' @ '':'' @ quote '' Rust '' @ '','' @ quote ''percent'' @ '':55}'']"
  by (simp add: requireAuth_def keep_session_def post_admin_skills_def Let_def field_def
      truthy_def to_number_def percent_invalid_def is_finite_def js_lt_def trim_method_def
      js_trim_def is_ascii_space_def is_space2_def is_space3_def bind_args_def bind_value_def
      bind_number_def store_integer_def with_default_def next_rowid_def example_db_def
      example_env_def example_user_def audit_def js_object_def List.map_filter_def
      print_nat.simps hex_digit_def)

text \<open>
  A password that is a string and that the password check refuses gets the reply a
  name no user has gets.
\<close>

lemma login_wrong_password:
  assumes u1: "field body_a ''username'' = Some (JStr name_a)"
    and p1: "field body_a ''password'' = Some (JStr pw_a)"
    and found: "find (\<lambda>r. u_username r = name_a) (users d) = Some user"
    and wrong: "compareSync e pw_a (u_password_hash user) = Some False"
    and u2: "field body_b ''username'' = Some (JStr name_b)"
    and missing: "find (\<lambda>r. u_username r = name_b) (users d) = None"
  shows "handle e (PostLogin body_a) d sess = (Json 401 (error_body ''Invalid credentials''), d, sess)
       \<and> handle e (PostLogin body_b) d sess = (Json 401 (error_body ''Invalid credentials''), d, sess)"
proof -
  have b1: "bind_args (Suc 0) [Some (JStr name_a)] = Inr [SqlText name_a]"
    and b2: "bind_args (Suc 0) [Some (JStr name_b)] = Inr [SqlText name_b]"
    by (simp_all add: bind_args_def bind_value_def)
  have m: "\<And>n. (\<lambda>r. user_matches e r (SqlText n)) = (\<lambda>r. u_username r = n)"
    by (simp add: user_matches_def)
  have "login e body_a d sess = (Json 401 (error_body ''Invalid credentials''), d, sess)"
    using u1 p1 found wrong by (simp add: login_def b1 m)
  moreover have "login e body_b d sess = (Json 401 (error_body ''Invalid credentials''), d, sess)"
    using u2 missing by (simp add: login_def b2 m)
  ultimately show ?thesis by simp
qed

section \<open>The claims\<close>

text \<open>
  C1. For every pair of non-empty strings sent as headline and subtitle by a signed-in
  user, and a database holding its content row, the update succeeds, the content read
  back afterwards is exactly the two trimmed strings (stamped with the time of the
  update), and exactly one audit entry is appended, with action update and entity
  content.
\<close>

theorem update_then_get_content:
  assumes hh: "field body ''hero_headline'' = Some (JStr h)" and h: "h \<noteq> []"
    and hs: "field body ''hero_subtitle'' = Some (JStr s)" and s: "s \<noteq> []"
    and inv: "map c_id (content d) = [1]"
  shows "\<exists>d'. handle e (PutAdminContent body) d (Some u) = (Json 200 ok_body, d', Some u)
           \<and> handle e GetAdminContent d' (Some u) =
               (Json 200 (JObj [(''content'',
                   JObj [(''hero_headline'', JStr (js_trim h)),
                         (''hero_subtitle'', JStr (js_trim s)),
                         (''updated_at'', JStr (now e))])]), d', Some u)
           \<and> (\<exists>entry. audit_log d' = audit_log d @ [entry]
                  \<and> a_actor entry = su_username u \<and> a_action entry = ''update''
                  \<and> a_entity entry = ''content'' \<and> a_entity_id entry = SqlNum 1)"
proof -
  from inv obtain r where r: "content d = [r]" "c_id r = 1" by (rule content_single)
  have put: "put_admin_content e body d u =
      (Json 200 ok_body,
       audit e (su_username u) ''update'' ''content'' (Some (Fin 1)) (JObj [])
         (d\<lparr> content := [r\<lparr> c_hero_headline := js_trim h, c_hero_subtitle := js_trim s,
                             c_updated_at := now e \<rparr>] \<rparr>))"
    using hh h hs s r by (simp add: put_admin_content_def truthy_def trim_method_def)
  let ?d' = "audit e (su_username u) ''update'' ''content'' (Some (Fin 1)) (JObj [])
         (d\<lparr> content := [r\<lparr> c_hero_headline := js_trim h, c_hero_subtitle := js_trim s,
                             c_updated_at := now e \<rparr>] \<rparr>)"
  have a: "handle e (PutAdminContent body) d (Some u) = (Json 200 ok_body, ?d', Some u)"
    using put by (simp add: requireAuth_def keep_session_def)
  have b: "handle e GetAdminContent ?d' (Some u) =
               (Json 200 (JObj [(''content'',
                   JObj [(''hero_headline'', JStr (js_trim h)),
                         (''hero_subtitle'', JStr (js_trim s)),
                         (''updated_at'', JStr (now e))])]), ?d', Some u)"
    using r by (simp add: requireAuth_def get_admin_content_def select_content_def audit_def
        js_object_def List.map_filter_def)
  have c: "\<exists>entry. audit_log ?d' = audit_log d @ [entry]
                  \<and> a_actor entry = su_username u \<and> a_action entry = ''update''
                  \<and> a_entity entry = ''content'' \<and> a_entity_id entry = SqlNum 1"
    by (simp add: audit_def bind_number_def)
  from a b c show ?thesis by blast
qed

theorem update_then_get_content_witness:
  "\<exists>d'. handle example_env
          (PutAdminContent (Some (JObj [(''hero_headline'', JStr ''  Hello ''),
                                        (''hero_subtitle'', JStr ''World'')])))
          example_db (Some example_user) = (Json 200 ok_body, d', Some example_user)
     \<and> handle example_env GetAdminContent d' (Some example_user) =
         (Json 200 (JObj [(''content'',
             JObj [(''hero_headline'', JStr (js_trim ''  Hello '')),
                   (''hero_subtitle'', JStr (js_trim ''World'')),
                   (''updated_at'', JStr (now example_env))])]), d', Some example_user)
     \<and> (\<exists>entry. audit_log d' = audit_log example_db @ [entry]
            \<and> a_actor entry = su_username example_user \<and> a_action entry = ''update''
            \<and> a_entity entry = ''content'' \<and> a_entity_id entry = SqlNum 1)"
  by (rule update_then_get_content) (simp_all add: field_def example_db_def)

text \<open>
  C2. When the percent converts to a number that is not finite or lies outside 0..100,
  creating and updating a skill answer 400 and the database stays as it was
  (\<open>skill_percent_rejected\<close>). The conversion itself can throw: on a percent that is
  an object with a property named \<^verbatim>\<open>toString\<close>, creating and updating a skill end in
  an uncaught TypeError instead of the validation error (the database is unchanged
  there too).
\<close>

theorem skill_percent_object_uncaught:
  "handle e (PostAdminSkills (Some (JObj [(''label'', JStr ''Go''),
                                           (''percent'', JObj [(''toString'', JNum (Fin 1))])])))
     d (Some u) = (Uncaught TypeError, d, Some u)
   \<and> handle e (PutAdminSkill i (Some (JObj [(''label'', JStr ''Go''),
                                           (''percent'', JObj [(''toString'', JNum (Fin 1))])])))
     d (Some u) = (Uncaught TypeError, d, Some u)"
  by (simp add: requireAuth_def keep_session_def post_admin_skills_def put_admin_skill_def Let_def
      field_def truthy_def to_number_def)

theorem skill_percent_object_uncaught_witness:
  "fst (handle example_env
     (PostAdminSkills (Some (JObj [(''label'', JStr ''Go''),
                                   (''percent'', JObj [(''toString'', JNum (Fin 1))])])))
     example_db (Some example_user)) = Uncaught TypeError"
  using skill_percent_object_uncaught [of example_env example_db example_user "''1''"]
  by simp

text \<open>
  C3. The update of the content checks the two fields as they arrive, before trimming:
  a request in which either is missing or empty (falsy) is answered 400 and changes
  nothing; a request in which both are non-empty strings replaces both fields of the
  content row by their trimmed values and stamps the time of the update.
\<close>

theorem content_update_validation:
  "(\<not> truthy (field body ''hero_headline'') \<or> \<not> truthy (field body ''hero_subtitle'')
      \<longrightarrow> handle e (PutAdminContent body) d (Some u) =
            (Json 400 (error_body ''Missing fields''), d, Some u))
   \<and> (field body ''hero_headline'' = Some (JStr h) \<and> h \<noteq> []
        \<and> field body ''hero_subtitle'' = Some (JStr s) \<and> s \<noteq> []
        \<and> content d = [r] \<and> c_id r = 1
      \<longrightarrow> handle e (PutAdminContent body) d (Some u) =
            (Json 200 ok_body,
             audit e (su_username u) ''update'' ''content'' (Some (Fin 1)) (JObj [])
               (d\<lparr> content := [r\<lparr> c_hero_headline := js_trim h, c_hero_subtitle := js_trim s,
                                   c_updated_at := now e \<rparr>] \<rparr>),
             Some u))"
proof -
  have reject: "\<not> truthy (field body ''hero_headline'') \<or> \<not> truthy (field body ''hero_subtitle'')
      \<Longrightarrow> handle e (PutAdminContent body) d (Some u) =
            (Json 400 (error_body ''Missing fields''), d, Some u)"
    by (auto simp: requireAuth_def keep_session_def put_admin_content_def Let_def)
  have accept: "field body ''hero_headline'' = Some (JStr h) \<Longrightarrow> h \<noteq> []
        \<Longrightarrow> field body ''hero_subtitle'' = Some (JStr s) \<Longrightarrow> s \<noteq> []
        \<Longrightarrow> content d = [r] \<Longrightarrow> c_id r = 1
      \<Longrightarrow> handle e (PutAdminContent body) d (Some u) =
            (Json 200 ok_body,
             audit e (su_username u) ''update'' ''content'' (Some (Fin 1)) (JObj [])
               (d\<lparr> content := [r\<lparr> c_hero_headline := js_trim h, c_hero_subtitle := js_trim s,
                                   c_updated_at := now e \<rparr>] \<rparr>),
             Some u)"
    by (simp add: requireAuth_def keep_session_def put_admin_content_def Let_def truthy_def
        trim_method_def)
  from reject accept show ?thesis by blast
qed

theorem content_update_validation_witness:
  "handle example_env
     (PutAdminContent (Some (JObj [(''hero_headline'', JStr ''''), (''hero_subtitle'', JStr ''x'')])))
     example_db (Some example_user) =
     (Json 400 (error_body ''Missing fields''), example_db, Some example_user)
   \<and> fst (handle example_env
     (PutAdminContent (Some (JObj [(''hero_headline'', JStr '' Hi ''), (''hero_subtitle'', JStr ''x'')])))
     example_db (Some example_user)) = Json 200 ok_body"
proof -
  let ?empty = "Some (JObj [(''hero_headline'', JStr ''''), (''hero_subtitle'', JStr ''x'')])"
  let ?good = "Some (JObj [(''hero_headline'', JStr '' Hi ''), (''hero_subtitle'', JStr ''x'')])"
  have a: "\<not> truthy (field ?empty ''hero_headline'')"
    by (simp add: field_def truthy_def)
  have b: "field ?good ''hero_headline'' = Some (JStr '' Hi '')" "'' Hi '' \<noteq> []"
    "field ?good ''hero_subtitle'' = Some (JStr ''x'')" "''x'' \<noteq> []"
    "content example_db = [hd (content example_db)]" "c_id (hd (content example_db)) = 1"
    by (simp_all add: field_def example_db_def)
  from a content_update_validation [of ?empty example_env example_db example_user]
  have first: "handle example_env (PutAdminContent ?empty) example_db (Some example_user) =
     (Json 400 (error_body ''Missing fields''), example_db, Some example_user)" by blast
  from b content_update_validation
    [of ?good example_env example_db example_user "'' Hi ''" "''x''" "hd (content example_db)"]
  have "fst (handle example_env (PutAdminContent ?good) example_db (Some example_user)) = Json 200 ok_body"
    by simp
  with first show ?thesis by blast
qed

text \<open>
  A headline of three spaces is empty after trimming, yet the update answers 200 and
  stores the empty string.
\<close>

theorem whitespace_headline_counterexample:
  "js_trim ''   '' = []
   \<and> fst (handle example_env
       (PutAdminContent (Some (JObj [(''hero_headline'', JStr ''   ''), (''hero_subtitle'', JStr ''x'')])))
       example_db (Some example_user)) = Json 200 ok_body
   \<and> map c_hero_headline (content example_db) = [''Old'']
   \<and> map c_hero_headline (content (fst (snd (handle example_env
       (PutAdminContent (Some (JObj [(''hero_headline'', JStr ''   ''), (''hero_subtitle'', JStr ''x'')])))
       example_db (Some example_user))))) = [[]]"
  by (simp add: requireAuth_def keep_session_def put_admin_content_def Let_def field_def
      truthy_def trim_method_def js_trim_def is_ascii_space_def is_space2_def is_space3_def
      example_db_def audit_def)

text \<open>
  C4. A login with the name of an existing user and a password that the password check
  refuses, and a login with a name no user has, get the same reply when the password is
  a string: status 401 with the message "Invalid credentials"
  (\<open>login_wrong_password\<close>). A request whose password is missing or is not a string
  tells the two apart: the user is looked up first and the password checked only when
  one is found, and the check throws on anything but a string. For the name of an
  existing user the request ends in an uncaught error, for a name no user has it gets
  the 401; neither changes the database or the session.
\<close>

theorem login_without_password_distinguishes:
  assumes u1: "field body_a ''username'' = Some (JStr name_a)"
    and p1: "\<forall>p. field body_a ''password'' \<noteq> Some (JStr p)"
    and found: "find (\<lambda>r. u_username r = name_a) (users d) = Some user"
    and u2: "field body_b ''username'' = Some (JStr name_b)"
    and missing: "find (\<lambda>r. u_username r = name_b) (users d) = None"
  shows "handle e (PostLogin body_a) d sess = (Uncaught Error, d, sess)
       \<and> handle e (PostLogin body_b) d sess = (Json 401 (error_body ''Invalid credentials''), d, sess)"
proof -
  have b1: "bind_args (Suc 0) [Some (JStr name_a)] = Inr [SqlText name_a]"
    and b2: "bind_args (Suc 0) [Some (JStr name_b)] = Inr [SqlText name_b]"
    by (simp_all add: bind_args_def bind_value_def)
  have m: "\<And>n. (\<lambda>r. user_matches e r (SqlText n)) = (\<lambda>r. u_username r = n)"
    by (simp add: user_matches_def)
  have "login e body_a d sess = (Uncaught Error, d, sess)"
    using u1 p1 found by (simp add: login_def b1 m split: option.splits json.splits)
  moreover have "login e body_b d sess = (Json 401 (error_body ''Invalid credentials''), d, sess)"
    using u2 missing by (simp add: login_def b2 m)
  ultimately show ?thesis by simp
qed

theorem login_without_password_distinguishes_witness:
  "handle example_env (PostLogin (Some (JObj [(''username'', JStr ''admin'')]))) example_db None
     = (Uncaught Error, example_db, None)
   \<and> handle example_env (PostLogin (Some (JObj [(''username'', JStr ''nobody'')]))) example_db None
     = (Json 401 (error_body ''Invalid credentials''), example_db, None)"
  by (rule login_without_password_distinguishes
        [where user = "hd (users example_db)" and name_a = "''admin''" and name_b = "''nobody''"])
     (simp_all add: field_def example_db_def)

text \<open>
  C5. A request to an admin route from a session with no user is answered 401
  "Unauthorized" and leaves the database and the session as they were. Logging out
  leaves the session without a user, so that afterwards the current-user route returns
  a null user and every admin route answers 401.
\<close>

theorem admin_routes_need_session:
  assumes "is_admin_route req"
  shows "handle e req d None = (Json 401 (error_body ''Unauthorized''), d, None)
       \<and> (\<exists>d'. handle e PostLogout d (Some u) = (Json 200 ok_body, d', None)
              \<and> handle e GetMe d' None = (Json 200 (JObj [(''user'', JNull)]), d', None)
              \<and> handle e req d' None = (Json 401 (error_body ''Unauthorized''), d', None))"
proof -
  have gate: "\<And>x. handle e req x None = (Json 401 (error_body ''Unauthorized''), x, None)"
    using assms by (cases req) (simp_all add: requireAuth_def error_body_def)
  have out: "handle e PostLogout d (Some u) =
      (Json 200 ok_body, audit e (su_username u) ''logout'' ''auth'' None (JObj []) d, None)"
    by (simp add: requireAuth_def logout_def)
  have me: "\<And>x. handle e GetMe x None = (Json 200 (JObj [(''user'', JNull)]), x, None)"
    by (simp add: me_def)
  from gate out me show ?thesis by blast
qed

theorem admin_routes_need_session_witness:
  "handle example_env (DeleteAdminSkill ''1'') example_db None =
     (Json 401 (error_body ''Unauthorized''), example_db, None)
   \<and> (\<exists>d'. handle example_env PostLogout example_db (Some example_user) = (Json 200 ok_body, d', None)
          \<and> handle example_env GetMe d' None = (Json 200 (JObj [(''user'', JNull)]), d', None)
          \<and> handle example_env (DeleteAdminSkill ''1'') d' None =
              (Json 401 (error_body ''Unauthorized''), d', None))"
  by (rule admin_routes_need_session) simp

text \<open>
  C6. For every database, the skills listing returns the rows of the skills table in
  the order of their stored values, sort ascending, then id ascending, and the projects
  listing returns the rows of the projects table in the order of their stored values,
  featured first, then sort ascending, then id descending, each row with its links
  expanded (the listing fails as a whole when the stored links of some row cannot be
  parsed). The reply shows a stored integer as a double: when no stored sort, featured
  flag or id is beyond \<^verbatim>\<open>2^53\<close> in size, the rows of the reply are in the specified
  order by the values they show.
\<close>

theorem listings_in_stored_order:
  "(\<exists>rows. mset rows = mset (skills d) \<and> sorted_wrt skills_listing_order rows
      \<and> handle e GetAdminSkills d (Some u) =
          (Json 200 (JObj [(''skills'', JArr (map skill_json rows))]), d, Some u)
      \<and> (list_all exact_skill (skills d)
           \<longrightarrow> sorted_wrt skills_reply_order (map skill_json rows)))
   \<and> (\<exists>rows. mset rows = mset (projects d) \<and> sorted_wrt projects_listing_order rows
      \<and> handle e GetAdminProjects d (Some u) =
          (if list_all (links_readable e) rows
           then Json 200 (JObj [(''projects'', JArr (map (expanded e) rows))])
           else Uncaught SyntaxError, d, Some u)
      \<and> (list_all exact_project (projects d)
           \<longrightarrow> sorted_wrt projects_reply_order (map (expanded e) rows)))"
proof -
  let ?st = "[(s_sort, ASC), (\<lambda>r. SqlNum (of_int (s_id r)), ASC)]"
  let ?pt = "[(p_featured, DESC), (p_sort, ASC), (\<lambda>r. SqlNum (of_int (p_id r)), DESC)]"
  have s1: "handle e GetAdminSkills d (Some u) =
      (Json 200 (JObj [(''skills'', JArr (map skill_json (order_by ?st (skills d))))]), d, Some u)"
    by (simp add: requireAuth_def get_admin_skills_def)
  have s2: "sorted_wrt skills_listing_order (order_by ?st (skills d))"
  proof -
    have "row_le ?st = skills_listing_order"
      by (intro ext) (rule skills_order_spec)
    then show ?thesis using sorted_order_by [of ?st "skills d"] by simp
  qed
  have s3: "list_all exact_skill (skills d)
      \<Longrightarrow> sorted_wrt skills_reply_order (map skill_json (order_by ?st (skills d)))"
  proof -
    assume exact: "list_all exact_skill (skills d)"
    show ?thesis
    proof (rule sorted_reply [OF s2])
      fix a b
      assume "a \<in> set (order_by ?st (skills d))" and "b \<in> set (order_by ?st (skills d))"
      with exact have "exact_skill a" and "exact_skill b"
        by (simp_all add: set_order_by list_all_iff)
      then show "skills_reply_order (skill_json a) (skill_json b) = skills_listing_order a b"
        by (rule skills_reply_order_exact)
    qed
  qed
  have p1: "handle e GetAdminProjects d (Some u) =
      (if list_all (links_readable e) (order_by ?pt (projects d))
       then Json 200 (JObj [(''projects'', JArr (map (expanded e) (order_by ?pt (projects d))))])
       else Uncaught SyntaxError, d, Some u)"
    by (simp add: requireAuth_def get_admin_projects_def map_rows_expand)
  have p2: "sorted_wrt projects_listing_order (order_by ?pt (projects d))"
  proof -
    have "row_le ?pt = projects_listing_order"
      by (intro ext) (rule projects_order_spec)
    then show ?thesis using sorted_order_by [of ?pt "projects d"] by simp
  qed
  have p3: "list_all exact_project (projects d)
      \<Longrightarrow> sorted_wrt projects_reply_order (map (expanded e) (order_by ?pt (projects d)))"
  proof -
    assume exact: "list_all exact_project (projects d)"
    show ?thesis
    proof (rule sorted_reply [OF p2])
      fix a b
      assume "a \<in> set (order_by ?pt (projects d))" and "b \<in> set (order_by ?pt (projects d))"
      with exact have "exact_project a" and "exact_project b"
        by (simp_all add: set_order_by list_all_iff)
      then show "projects_reply_order (expanded e a) (expanded e b) = projects_listing_order a b"
        by (rule projects_reply_order_exact)
    qed
  qed
  from s1 s2 s3 mset_order_by [of ?st "skills d"]
  have skills_part: "\<exists>rows. mset rows = mset (skills d) \<and> sorted_wrt skills_listing_order rows
      \<and> handle e GetAdminSkills d (Some u) =
          (Json 200 (JObj [(''skills'', JArr (map skill_json rows))]), d, Some u)
      \<and> (list_all exact_skill (skills d)
           \<longrightarrow> sorted_wrt skills_reply_order (map skill_json rows))"
    by blast
  from p1 p2 p3 mset_order_by [of ?pt "projects d"]
  have projects_part: "\<exists>rows. mset rows = mset (projects d) \<and> sorted_wrt projects_listing_order rows
      \<and> handle e GetAdminProjects d (Some u) =
          (if list_all (links_readable e) rows
           then Json 200 (JObj [(''projects'', JArr (map (expanded e) rows))])
           else Uncaught SyntaxError, d, Some u)
      \<and> (list_all exact_project (projects d)
           \<longrightarrow> sorted_wrt projects_reply_order (map (expanded e) rows))"
    by blast
  from skills_part projects_part show ?thesis by (rule conjI)
qed

theorem listings_in_stored_order_witness:
  "(\<exists>rows. mset rows = mset (skills example_db) \<and> sorted_wrt skills_listing_order rows
      \<and> handle example_env GetAdminSkills example_db (Some example_user) =
          (Json 200 (JObj [(''skills'', JArr (map skill_json rows))]), example_db, Some example_user)
      \<and> sorted_wrt skills_reply_order (map skill_json rows))
   \<and> (\<exists>rows. mset rows = mset (projects example_db) \<and> sorted_wrt projects_listing_order rows
      \<and> handle example_env GetAdminProjects example_db (Some example_user) =
          (if list_all (links_readable example_env) rows
           then Json 200 (JObj [(''projects'', JArr (map (expanded example_env) rows))])
           else Uncaught SyntaxError, example_db, Some example_user)
      \<and> sorted_wrt projects_reply_order (map (expanded example_env) rows))"
proof -
  have a: "list_all exact_skill (skills example_db)"
    by (simp add: example_db_def exact_skill_def exact_value_def)
  have b: "list_all exact_project (projects example_db)"
    by (simp add: example_db_def exact_project_def exact_value_def)
  from listings_in_stored_order [of example_db example_env example_user] a b
  show ?thesis by blast
qed

text \<open>
  Two skills are created with the sort values \<^verbatim>\<open>"9007199254740993"\<close> and
  \<^verbatim>\<open>"9007199254740992"\<close>, sent as strings, which the column stores as the integers
  they denote. The listing returns the second skill first, as its stored sort is the
  smaller one, and shows the same sort for both: by the values it shows, the reply is
  not in the order sort ascending, then id ascending.
\<close>

theorem large_sort_counterexample:
  "\<exists>d1 d2 listed.
      handle example_env
        (PostAdminSkills (Some (JObj [(''label'', JStr ''A''), (''percent'', JNum (Fin 50)),
                                      (''sort'', JStr ''9007199254740993'')])))
        empty_db (Some example_user) = (Json 200 (ok_id_body 1), d1, Some example_user)
    \<and> handle example_env
        (PostAdminSkills (Some (JObj [(''label'', JStr ''B''), (''percent'', JNum (Fin 50)),
                                      (''sort'', JStr ''9007199254740992'')])))
        d1 (Some example_user) = (Json 200 (ok_id_body 2), d2, Some example_user)
    \<and> handle example_env GetAdminSkills d2 (Some example_user) =
        (Json 200 (JObj [(''skills'', JArr listed)]), d2, Some example_user)
    \<and> listed =
        [JObj [(''id'', JNum (Fin 2)), (''label'', JStr ''B''), (''percent'', JNum (Fin 50)),
               (''sort'', JNum (Fin 9007199254740992))],
         JObj [(''id'', JNum (Fin 1)), (''label'', JStr ''A''), (''percent'', JNum (Fin 50)),
               (''sort'', JNum (Fin 9007199254740992))]]
    \<and> \<not> sorted_wrt skills_reply_order listed"
proof -
  let ?a = "Some (JObj [(''label'', JStr ''A''), (''percent'', JNum (Fin 50)),
                        (''sort'', JStr ''9007199254740993'')])"
  let ?b = "Some (JObj [(''label'', JStr ''B''), (''percent'', JNum (Fin 50)),
                        (''sort'', JStr ''9007199254740992'')])"
  let ?u = "Some example_user"
  let ?listed =
    "[JObj [(''id'', JNum (Fin 2)), (''label'', JStr ''B''), (''percent'', JNum (Fin 50)),
            (''sort'', JNum (Fin 9007199254740992))],
      JObj [(''id'', JNum (Fin 1)), (''label'', JStr ''A''), (''percent'', JNum (Fin 50)),
            (''sort'', JNum (Fin 9007199254740992))]]"
  define d1 where "d1 = snd (post_admin_skills example_env ?a empty_db example_user)"
  define d2 where "d2 = snd (post_admin_skills example_env ?b d1 example_user)"
  have post: "\<And>body d. handle example_env (PostAdminSkills body) d ?u =
      (fst (post_admin_skills example_env body d example_user),
       snd (post_admin_skills example_env body d example_user), ?u)"
    by (simp add: requireAuth_def keep_session_def)
  have stored: "integer_affinity example_env ''9007199254740993'' = SqlNum 9007199254740993"
    "integer_affinity example_env ''9007199254740992'' = SqlNum 9007199254740992"
    by (simp_all add: example_env_def is_digits_def is_digit_def dec_val_def)
  have first: "fst (post_admin_skills example_env ?a empty_db example_user) = Json 200 (ok_id_body 1)"
    and skills1: "skills d1 =
       [\<lparr> s_id = 1, s_label = ''A'', s_percent = SqlNum 50, s_sort = SqlNum 9007199254740993 \<rparr>]"
    unfolding d1_def
    by (simp_all add: post_admin_skills_def Let_def field_def truthy_def to_number_def
        percent_invalid_def is_finite_def js_lt_def trim_method_def js_trim_def
        is_ascii_space_def is_space2_def is_space3_def bind_args_def bind_value_def
        bind_number_def store_integer_def stored with_default_def next_rowid_def empty_db_def
        audit_def)
  have second: "fst (post_admin_skills example_env ?b d1 example_user) = Json 200 (ok_id_body 2)"
    and skills2: "skills d2 =
       [\<lparr> s_id = 1, s_label = ''A'', s_percent = SqlNum 50, s_sort = SqlNum 9007199254740993 \<rparr>,
        \<lparr> s_id = 2, s_label = ''B'', s_percent = SqlNum 50, s_sort = SqlNum 9007199254740992 \<rparr>]"
    unfolding d2_def
    by (simp_all add: post_admin_skills_def Let_def field_def truthy_def to_number_def
        percent_invalid_def is_finite_def js_lt_def trim_method_def js_trim_def
        is_ascii_space_def is_space2_def is_space3_def bind_args_def bind_value_def
        bind_number_def store_integer_def stored with_default_def next_rowid_def skills1
        audit_def)
  have a: "handle example_env (PostAdminSkills ?a) empty_db ?u = (Json 200 (ok_id_body 1), d1, ?u)"
    unfolding post first d1_def ..
  have b: "handle example_env (PostAdminSkills ?b) d1 ?u = (Json 200 (ok_id_body 2), d2, ?u)"
    unfolding post second d2_def ..
  have c: "handle example_env GetAdminSkills d2 ?u = (Json 200 (JObj [(''skills'', JArr ?listed)]), d2, ?u)"
    by (simp add: requireAuth_def get_admin_skills_def skills2 order_by_def sql_compare_def
        sql_key_def skill_json_def sql_to_js_def js_int_def int_number_def int_to_double_exact
        read_number_exact read_number_def int_to_double_rounds)
  have e: "\<not> sorted_wrt skills_reply_order ?listed"
    by (simp add: skills_reply_order_def shown_value_def field_def bind_value_def bind_number_def
        sql_less_def sql_compare_def sql_key_def)
  from a b c e show ?thesis by blast
qed

text \<open>
  C7. Creating a project with a title, a summary and a list of links whose numbers are
  all finite and none the negative zero, on a database whose stored links are readable,
  succeeds with a new id, and the listing afterwards holds a project with that id whose
  links are the list that was sent. The list is a value of the language
  (\<open>ordered_json\<close>), and the environment prints and reads its numbers as the language
  guarantees of every finite number but the negative zero (\<open>reads_back\<close>).
\<close>

theorem project_links_roundtrip:
  assumes t: "field body ''title'' = Some (JStr t)" and tn: "t \<noteq> []"
    and s: "field body ''summary'' = Some (JStr s)" and sn: "s \<noteq> []"
    and st: "field body ''stack'' = None \<or> (\<exists>x. field body ''stack'' = Some (JStr x))"
    and so: "field body ''sort'' = None \<or> (\<exists>q. field body ''sort'' = Some (JNum (Fin q)))"
    and l: "field body ''links'' = Some (JArr ls)"
    and ord: "ordered_json (JArr ls)"
    and num: "list_all plain_number (numbers_of (JArr ls))"
    and env: "list_all (\<lambda>n. plain_number n \<longrightarrow> reads_back e n) (numbers_of (JArr ls))"
    and rd: "\<forall>p \<in> set (projects d). links_readable e p"
  shows "\<exists>n d' listed.
           handle e (PostAdminProjects body) d (Some u) = (Json 200 (ok_id_body n), d', Some u)
         \<and> handle e GetAdminProjects d' (Some u) =
             (Json 200 (JObj [(''projects'', JArr listed)]), d', Some u)
         \<and> (\<exists>row \<in> set listed. field (Some row) ''id'' = Some (js_int n)
                \<and> field (Some row) ''links'' = Some (JArr ls))"
proof -
  have "list_all is_finite (numbers_of (JArr ls))"
    and "list_all (reads_back e) (numbers_of (JArr ls))"
    using num env by (simp_all add: list_all_iff plain_number_def)
  with ord have "printable_json e (JArr ls)"
    by (simp only: printable_iff(1))
  then have "json_parse e (stringify e (JArr ls)) = Some (JArr ls)"
    by (rule json_parse_stringify)
  from create_then_list [OF t tn s sn st so l this rd, of u] show ?thesis by blast
qed

theorem project_links_roundtrip_witness:
  "\<exists>n d' listed.
     handle example_env
       (PostAdminProjects (Some (JObj [(''title'', JStr ''Site''), (''summary'', JStr ''A site''),
          (''links'', JArr [JObj [(''url'', JStr ''https://x''), (''label'', JStr ''x''),
                                  (''rank'', JNum (Fin 7))]])])))
       example_db (Some example_user) = (Json 200 (ok_id_body n), d', Some example_user)
     \<and> handle example_env GetAdminProjects d' (Some example_user) =
         (Json 200 (JObj [(''projects'', JArr listed)]), d', Some example_user)
     \<and> (\<exists>row \<in> set listed. field (Some row) ''id'' = Some (js_int n)
            \<and> field (Some row) ''links'' =
                Some (JArr [JObj [(''url'', JStr ''https://x''), (''label'', JStr ''x''),
                                  (''rank'', JNum (Fin 7))]]))"
  by (rule project_links_roundtrip [where t = "''Site''" and s = "''A site''"])
     (simp_all add: field_def example_db_def array_index_def is_digit_def links_readable_def
        json_parse_def skip_ws_def is_ws_def is_finite_def plain_number_def reads_back_def
        number_token_def
        example_env_def print_nat.simps hex_digit_def scan_number_def scan_int_def
        scan_frac_def scan_exp_def is_digits_def dec_val_def int_to_double_exact)

text \<open>
  The body parser reads the literal \<^verbatim>\<open>1e999\<close> as \<^verbatim>\<open>Infinity\<close>, which is written
  to the stored text as \<^verbatim>\<open>null\<close>, and \<^verbatim>\<open>-0\<close> as the negative zero, which is
  written as \<^verbatim>\<open>0\<close>: a project created with a link that holds the two is listed
  with \<^verbatim>\<open>null\<close> and zero in their places.
\<close>

theorem infinite_link_counterexample:
  "json_parse example_env ''[1e999,-0]'' = Some (JArr [JNum PosInf, JNum NegZero])
   \<and> (\<exists>d' listed.
        handle example_env
          (PostAdminProjects (Some (JObj [(''title'', JStr ''Site''), (''summary'', JStr ''A site''),
             (''links'', JArr [JObj [(''url'', JStr ''https://x''), (''rank'', JNum PosInf),
                                     (''bias'', JNum NegZero)]])])))
          example_db (Some example_user) = (Json 200 (ok_id_body 3), d', Some example_user)
      \<and> handle example_env GetAdminProjects d' (Some example_user) =
          (Json 200 (JObj [(''projects'', JArr listed)]), d', Some example_user)
      \<and> (\<exists>row \<in> set listed. field (Some row) ''id'' = Some (js_int 3)
             \<and> field (Some row) ''links'' =
                 Some (JArr [JObj [(''url'', JStr ''https://x''), (''rank'', JNull),
                                   (''bias'', JNum (Fin 0))]])))"
proof -
  let ?sent = "JArr [JObj [(''url'', JStr ''https://x''), (''rank'', JNum PosInf),
                           (''bias'', JNum NegZero)]]"
  let ?listed_links = "JArr [JObj [(''url'', JStr ''https://x''), (''rank'', JNull),
                                   (''bias'', JNum (Fin 0))]]"
  let ?body = "Some (JObj [(''title'', JStr ''Site''), (''summary'', JStr ''A site''),
                           (''links'', ?sent)])"
  have read: "json_parse example_env ''[1e999,-0]'' = Some (JArr [JNum PosInf, JNum NegZero])"
    by (simp add: json_parse_def skip_ws_def is_ws_def starts_def scan_number_def scan_int_def
        scan_frac_def scan_exp_def scan_sign_def is_digit_def example_env_def)
  have same: "stringify example_env ?sent = stringify example_env ?listed_links"
    by (simp add: is_finite_def example_env_def print_nat.simps hex_digit_def)
  have "printable_json example_env ?listed_links"
    by (simp add: array_index_def is_digit_def is_finite_def reads_back_def number_token_def
        example_env_def print_nat.simps hex_digit_def scan_number_def scan_int_def
        scan_frac_def scan_exp_def is_digits_def dec_val_def int_to_double_exact)
  then have "json_parse example_env (stringify example_env ?listed_links) = Some ?listed_links"
    by (rule json_parse_stringify)
  then have parsed: "json_parse example_env (stringify example_env ?sent) = Some ?listed_links"
    by (simp only: same)
  have rd: "\<forall>p \<in> set (projects example_db). links_readable example_env p"
    by (simp add: example_db_def links_readable_def json_parse_def skip_ws_def is_ws_def)
  have n: "next_rowid (map p_id (projects example_db)) = 3"
    by (simp add: example_db_def next_rowid_def)
  have "\<exists>d' listed.
      handle example_env (PostAdminProjects ?body) example_db (Some example_user) =
        (Json 200 (ok_id_body (next_rowid (map p_id (projects example_db)))), d', Some example_user)
    \<and> handle example_env GetAdminProjects d' (Some example_user) =
        (Json 200 (JObj [(''projects'', JArr listed)]), d', Some example_user)
    \<and> (\<exists>row \<in> set listed.
          field (Some row) ''id'' = Some (js_int (next_rowid (map p_id (projects example_db))))
          \<and> field (Some row) ''links'' = Some ?listed_links)"
    by (rule create_then_list
          [where t = "''Site''" and s = "''A site''"
             and ls = "[JObj [(''url'', JStr ''https://x''), (''rank'', JNum PosInf),
                              (''bias'', JNum NegZero)]]",
           OF _ _ _ _ _ _ _ parsed rd])
       (simp_all add: field_def)
  with read show ?thesis unfolding n by blast
qed

text \<open>
  C8. Deleting a skill by an id that no row of the skills table has answers
  \<^verbatim>\<open>{ok: true}\<close>, leaves every table but the audit log as it was, and appends
  exactly one audit entry, with action delete, entity skill and that id.
\<close>

theorem delete_missing_skill:
  assumes "\<forall>r \<in> set (skills d). \<not> id_matches (s_id r) (bind_number (string_to_num e i))"
  shows "\<exists>d'. handle e (DeleteAdminSkill i) d (Some u) = (Json 200 ok_body, d', Some u)
           \<and> skills d' = skills d \<and> projects d' = projects d \<and> content d' = content d
           \<and> users d' = users d
           \<and> audit_log d' = audit_log d @
               [\<lparr> a_id = next_rowid (map a_id (audit_log d)), a_actor = su_username u,
                  a_action = ''delete'', a_entity = ''skill'',
                  a_entity_id = bind_number (string_to_num e i),
                  a_meta_json = ''{}'', a_created_at = now e \<rparr>]"
proof -
  have keep: "filter (\<lambda>r. \<not> id_matches (s_id r) (bind_number (string_to_num e i))) (skills d) = skills d"
    using assms by (simp add: filter_id_conv)
  have "bind_args (Suc 0) [Some (JNum (string_to_num e i))] = Inr [bind_number (string_to_num e i)]"
    by (simp add: bind_args_def bind_value_def)
  then have "delete_admin_skill e i d u =
      (Json 200 ok_body,
       audit e (su_username u) ''delete'' ''skill'' (Some (string_to_num e i)) (JObj []) d)"
    using keep by (simp add: delete_admin_skill_def)
  then show ?thesis
    by (simp add: requireAuth_def keep_session_def audit_def)
qed

theorem delete_missing_skill_witness:
  "\<exists>d'. handle example_env (DeleteAdminSkill ''7'') example_db (Some example_user) =
          (Json 200 ok_body, d', Some example_user)
     \<and> skills d' = skills example_db \<and> projects d' = projects example_db
     \<and> content d' = content example_db \<and> users d' = users example_db
     \<and> audit_log d' = audit_log example_db @
         [\<lparr> a_id = next_rowid (map a_id (audit_log example_db)),
            a_actor = su_username example_user,
            a_action = ''delete'', a_entity = ''skill'',
            a_entity_id = bind_number (string_to_num example_env ''7''),
            a_meta_json = ''{}'', a_created_at = now example_env \<rparr>]"
  by (rule delete_missing_skill)
     (simp add: example_db_def example_env_def id_matches_def bind_number_def is_digits_def
        is_digit_def dec_val_def int_to_double_exact)

text \<open>
  C9. Seeding a content table that respects the schema (no row, or the row with id 1)
  leaves exactly one row, with id 1, holding the default text when the table was empty;
  and every request, with or without a session, keeps a content table of exactly one
  row with id 1 that way.
\<close>

theorem content_row_invariant:
  "(map c_id (content d0) = [] \<or> map c_id (content d0) = [1]
      \<longrightarrow> content_invariant (seed_content e d0))
   \<and> (content d0 = []
      \<longrightarrow> content (seed_content e d0) =
            [\<lparr> c_id = 1, c_hero_headline = default_headline,
               c_hero_subtitle = default_subtitle, c_updated_at = now e \<rparr>])
   \<and> (content_invariant d0 \<longrightarrow> seed_content e d0 = d0)
   \<and> (content_invariant d \<longrightarrow> content_invariant (fst (snd (handle e req d sess))))"
proof -
  have fresh: "content d0 = [] \<Longrightarrow> content (seed_content e d0) =
            [\<lparr> c_id = 1, c_hero_headline = default_headline,
               c_hero_subtitle = default_subtitle, c_updated_at = now e \<rparr>]"
    by (simp add: seed_content_def)
  have kept: "content_invariant d0 \<Longrightarrow> seed_content e d0 = d0"
    by (cases "content d0") (auto simp: seed_content_def content_invariant_def)
  have seed: "map c_id (content d0) = [] \<or> map c_id (content d0) = [1]
      \<Longrightarrow> content_invariant (seed_content e d0)"
    by (cases "content d0") (auto simp: seed_content_def content_invariant_def)
  have step: "content_invariant d \<Longrightarrow> content_invariant (fst (snd (handle e req d sess)))"
    by (simp add: content_invariant_def handle_content_ids)
  from seed fresh kept step show ?thesis by blast
qed

theorem content_row_invariant_witness:
  "content_invariant (seed_content example_env empty_db)
   \<and> content_invariant
        (fst (snd (handle example_env
           (PutAdminContent (Some (JObj [(''hero_headline'', JStr ''A''), (''hero_subtitle'', JStr ''B'')])))
           (seed_content example_env empty_db) (Some example_user))))"
proof -
  have a: "map c_id (content empty_db) = []" by (simp add: empty_db_def)
  have b: "content_invariant (seed_content example_env empty_db)"
    using content_row_invariant [of empty_db example_env] a by blast
  then show ?thesis
    using content_row_invariant [of empty_db example_env "seed_content example_env empty_db"] by blast
qed

text \<open>
  C10. For every database, the public endpoint returns the projects the admin listing
  returns, in the same order, and the skills the admin listing returns, in the same
  order, without their sort field; when the admin projects listing fails on stored
  links that cannot be parsed, the public endpoint fails with the same error.
\<close>

theorem public_view_matches_admin:
  "(\<exists>ss ps. handle e GetAdminSkills d (Some u) = (Json 200 (JObj [(''skills'', JArr ss)]), d, Some u)
        \<and> handle e GetAdminProjects d (Some u) = (Json 200 (JObj [(''projects'', JArr ps)]), d, Some u)
        \<and> handle e GetPublicContent d sess =
            (Json 200 (js_object [(''content'', select_content d),
                                  (''skills'', Some (JArr (map (drop_field ''sort'') ss))),
                                  (''projects'', Some (JArr ps))]), d, sess))
   \<or> (\<exists>x. handle e GetAdminProjects d (Some u) = (Uncaught x, d, Some u)
          \<and> handle e GetPublicContent d sess = (Uncaught x, d, sess))"
proof -
  let ?st = "[(s_sort, ASC), (\<lambda>r. SqlNum (of_int (s_id r)), ASC)]"
  let ?pt = "[(p_featured, DESC), (p_sort, ASC), (\<lambda>r. SqlNum (of_int (p_id r)), DESC)]"
  have skills_eq: "map (drop_field ''sort'') (map skill_json (order_by ?st (skills d)))
      = map skill_public_json (order_by ?st (skills d))"
    by (simp add: drop_sort_skill)
  show ?thesis
  proof (cases "map_rows (expand_links e) (order_by ?pt (projects d))")
    case (Inl x)
    then have "handle e GetAdminProjects d (Some u) = (Uncaught x, d, Some u)"
      and "handle e GetPublicContent d sess = (Uncaught x, d, sess)"
      by (simp_all add: requireAuth_def get_admin_projects_def get_public_content_def)
    then show ?thesis by blast
  next
    case (Inr ps)
    have a: "handle e GetAdminSkills d (Some u) =
        (Json 200 (JObj [(''skills'', JArr (map skill_json (order_by ?st (skills d))))]), d, Some u)"
      by (simp add: requireAuth_def get_admin_skills_def)
    have b: "handle e GetAdminProjects d (Some u) = (Json 200 (JObj [(''projects'', JArr ps)]), d, Some u)"
      using Inr by (simp add: requireAuth_def get_admin_projects_def)
    have c: "handle e GetPublicContent d sess =
            (Json 200 (js_object [(''content'', select_content d),
                (''skills'', Some (JArr (map (drop_field ''sort'')
                    (map skill_json (order_by ?st (skills d)))))),
                (''projects'', Some (JArr ps))]), d, sess)"
      using Inr unfolding skills_eq by (simp add: get_public_content_def)
    from a b c show ?thesis by blast
  qed
qed

theorem public_view_matches_admin_witness:
  "\<exists>ss ps. handle example_env GetAdminSkills example_db (Some example_user) =
            (Json 200 (JObj [(''skills'', JArr ss)]), example_db, Some example_user)
        \<and> handle example_env GetAdminProjects example_db (Some example_user) =
            (Json 200 (JObj [(''projects'', JArr ps)]), example_db, Some example_user)
        \<and> handle example_env GetPublicContent example_db None =
            (Json 200 (js_object [(''content'', select_content example_db),
                                  (''skills'', Some (JArr (map (drop_field ''sort'') ss))),
                                  (''projects'', Some (JArr ps))]), example_db, None)"
proof -
  have no: "\<And>x. handle example_env GetAdminProjects example_db (Some example_user)
      \<noteq> (Uncaught x, example_db, Some example_user)"
    unfolding ex_projects_listing by simp
  from public_view_matches_admin [of example_env example_db example_user None] no
  show ?thesis by blast
qed

end
